theory Spec2Isabelle
  imports Complex_Main "HOL-Library.Word" "HOL-Library.Sublist"
begin

unbundle bit_operations_syntax

section \<open>JavaScript values used by the model\<close>

text \<open>
  Strings are lists of 8-bit characters, read as the UTF-16 code units U+0000 to U+00FF.
  Timestamps (\<open>Date.now()\<close>) and durations are integers in milliseconds. A value that
  may be \<open>undefined\<close> or \<open>null\<close> is an \<open>option\<close>. A thrown exception is the left
  summand of a sum type.
\<close>

datatype error = TypeError string | Thrown "string option" | ThrownNull | ThrownUndefined

text \<open>
  \<open>TypeError m\<close> is a \<open>TypeError\<close> object with the message \<open>m\<close>; \<open>Thrown m\<close> is any other
  thrown value that is neither \<open>null\<close> nor \<open>undefined\<close>, whose property \<open>message\<close> reads
  as \<open>m\<close>; \<open>ThrownNull\<close> and \<open>ThrownUndefined\<close> are a thrown \<open>null\<close> and a thrown
  \<open>undefined\<close>, as a promise rejected without a reason gives. The type errors of the
  model come from reading or setting a property of \<open>undefined\<close> or \<open>null\<close>, with the
  messages of Node.js 16 and later.
\<close>

definition cannotRead :: "string \<Rightarrow> string \<Rightarrow> error" where
  "cannotRead base prop =
     TypeError (''Cannot read properties of '' @ base @ '' (reading '' @ [CHR 0x27] @ prop @ [CHR 0x27] @ '')'')"

definition cannotSet :: "string \<Rightarrow> string \<Rightarrow> error" where
  "cannotSet base prop =
     TypeError (''Cannot set properties of '' @ base @ '' (setting '' @ [CHR 0x27] @ prop @ [CHR 0x27] @ '')'')"

text \<open>
  The expression \<open>error.message\<close> on a caught value: it throws for \<open>null\<close> and
  \<open>undefined\<close>.
\<close>

definition readMessage :: "error \<Rightarrow> error + string option" where
  "readMessage e =
     (case e of
        TypeError m \<Rightarrow> Inr (Some m)
      | Thrown m \<Rightarrow> Inr m
      | ThrownNull \<Rightarrow> Inl (cannotRead ''null'' ''message'')
      | ThrownUndefined \<Rightarrow> Inl (cannotRead ''undefined'' ''message''))"

text \<open>\<open>Array.prototype.indexOf\<close>: the first position of a value, \<open>None\<close> for -1.\<close>

fun indexOf :: "'a list \<Rightarrow> 'a \<Rightarrow> nat option" where
  "indexOf [] x = None"
| "indexOf (y # ys) x =
     (if y = x then Some 0 else (case indexOf ys x of None \<Rightarrow> None | Some i \<Rightarrow> Some (Suc i)))"

text \<open>Reading an array position: \<open>undefined\<close> out of range.\<close>

definition at_index :: "'a option list \<Rightarrow> nat \<Rightarrow> 'a option" where
  "at_index xs i = (if i < length xs then xs ! i else None)"

text \<open>The white space of \<open>String.prototype.trim\<close> and of \<open>\s\<close>, below U+0100.\<close>

definition isWhiteSpace :: "char \<Rightarrow> bool" where
  "isWhiteSpace c = (of_char c \<in> {9, 10, 11, 12, 13, 32, 160 :: nat})"

definition trim :: "string \<Rightarrow> string" where
  "trim s = rev (dropWhile isWhiteSpace (rev (dropWhile isWhiteSpace s)))"

text \<open>
  \<open>String.prototype.toLowerCase\<close> on the code units below U+0100: the letters A to Z and
  the capital letters of Latin-1 (U+00C0 to U+00DE without U+00D7) move up by 32.
\<close>

definition toLowerCase_char :: "char \<Rightarrow> char" where
  "toLowerCase_char c =
     (let n = (of_char c :: nat) in
      if (65 \<le> n \<and> n \<le> 90) \<or> (192 \<le> n \<and> n \<le> 222 \<and> n \<noteq> 215) then char_of (n + 32) else c)"

definition toLowerCase :: "string \<Rightarrow> string" where
  "toLowerCase s = map toLowerCase_char s"

text \<open>A string that may be missing is truthy when it is there and not empty.\<close>

definition truthy :: "string option \<Rightarrow> bool" where
  "truthy s = (case s of None \<Rightarrow> False | Some t \<Rightarrow> t \<noteq> [])"

definition or_empty :: "string option \<Rightarrow> string" where
  "or_empty s = (case s of None \<Rightarrow> [] | Some t \<Rightarrow> t)"

text \<open>
  An identifier of a document is a string, a number or \<open>null\<close>; a missing one
  (\<open>undefined\<close>) is \<open>None\<close>.
\<close>

datatype js_id = IdStr string | IdNum int | IdNull

text \<open>
  A document object as it travels through ingestion and search: the fields that the
  functions below read, and every other property in the record's extension.
\<close>

record document =
  docId :: "js_id option"
  id' :: "js_id option"
  text' :: "string option"
  pageContent :: "string option"
  content :: "string option"
  title :: "string option"

text \<open>A document with nothing but a text.\<close>

definition textDoc :: "string \<Rightarrow> document" where
  "textDoc s = \<lparr>docId = None, id' = None, text' = Some s, pageContent = None, content = None, title = None\<rparr>"

section \<open>ApiKeyRotator\<close>

text \<open>An API key is a string, or \<open>undefined\<close> when the environment variable is unset.\<close>

type_synonym api_key = "string option"

record key_stats =
  requests :: nat
  failures :: nat
  lastUsed :: "int option"
  rateLimitUntil :: "int option"

record rotator =
  apiKeys :: "api_key list"
  currentIndex :: nat
  keyStats :: "nat \<rightharpoonup> key_stats"
  failedKeys :: "nat set"

text \<open>The constructor's filter \<open>key && key.trim().length > 0\<close>.\<close>

definition validKey :: "api_key \<Rightarrow> bool" where
  "validKey k = (case k of None \<Rightarrow> False | Some s \<Rightarrow> s \<noteq> [] \<and> length (trim s) > 0)"

definition initialStats :: key_stats where
  "initialStats = \<lparr>requests = 0, failures = 0, lastUsed = None, rateLimitUntil = None\<rparr>"

text \<open>
  \<open>new ApiKeyRotator(apiKeys)\<close>; \<open>envKey\<close> is \<open>process.env.GEMINI_API_KEY\<close>, pushed
  without statistics when no key is left after filtering.
\<close>

definition ApiKeyRotator :: "api_key list \<Rightarrow> api_key \<Rightarrow> rotator" where
  "ApiKeyRotator keys envKey =
     (let ks = filter validKey keys in
      \<lparr>apiKeys = (if ks = [] then [envKey] else ks),
       currentIndex = 0,
       keyStats = (\<lambda>i. if i < length ks then Some initialStats else None),
       failedKeys = {}\<rparr>)"

text \<open>\<open>stats.rateLimitUntil && Date.now() < stats.rateLimitUntil\<close>: 0 is falsy.\<close>

definition isRateLimited :: "key_stats \<Rightarrow> int \<Rightarrow> bool" where
  "isRateLimited stats now =
     (case rateLimitUntil stats of None \<Rightarrow> False | Some u \<Rightarrow> u \<noteq> 0 \<and> now < u)"

definition advance :: "rotator \<Rightarrow> rotator" where
  "advance r = r\<lparr>currentIndex := (currentIndex r + 1) mod length (apiKeys r)\<rparr>"

text \<open>
  The \<open>while (attempts < this.apiKeys.length)\<close> loop of \<open>getNextKey\<close>; the first argument
  is the number of attempts left. It returns the index of the key found, or \<open>None\<close> when
  the attempts are used up, and the state. Reading a field of missing statistics throws.
\<close>

fun getNextKey_loop :: "nat \<Rightarrow> int \<Rightarrow> rotator \<Rightarrow> error + (nat option \<times> rotator)" where
  "getNextKey_loop 0 now r = Inr (None, r)"
| "getNextKey_loop (Suc m) now r =
     (let keyIndex = currentIndex r in
      case keyStats r keyIndex of
        None \<Rightarrow> Inl (cannotRead ''undefined'' ''rateLimitUntil'')
      | Some stats \<Rightarrow>
          if isRateLimited stats now then getNextKey_loop m now (advance r)
          else if keyIndex \<in> failedKeys r then getNextKey_loop m now (advance r)
          else Inr (Some keyIndex,
                 advance (r\<lparr>keyStats := (keyStats r)(keyIndex \<mapsto>
                   stats\<lparr>requests := requests stats + 1, lastUsed := Some now\<rparr>)\<rparr>)))"

definition getNextKey :: "int \<Rightarrow> rotator \<Rightarrow> error + (api_key \<times> rotator)" where
  "getNextKey now r =
     (if length (apiKeys r) = 1 then Inr (at_index (apiKeys r) 0, r)
      else
        let startIndex = currentIndex r in
        case getNextKey_loop (length (apiKeys r)) now r of
          Inl e \<Rightarrow> Inl e
        | Inr (Some keyIndex, r') \<Rightarrow> Inr (at_index (apiKeys r') keyIndex, r')
        | Inr (None, r') \<Rightarrow> Inr (at_index (apiKeys r') startIndex, r'))"

definition markRateLimited :: "api_key \<Rightarrow> int \<Rightarrow> int \<Rightarrow> rotator \<Rightarrow> error + rotator" where
  "markRateLimited apiKey durationMs now r =
     (case indexOf (apiKeys r) apiKey of
        None \<Rightarrow> Inr r
      | Some keyIndex \<Rightarrow>
          (case keyStats r keyIndex of
             None \<Rightarrow> Inl (cannotSet ''undefined'' ''rateLimitUntil'')
           | Some stats \<Rightarrow>
               Inr (r\<lparr>keyStats := (keyStats r)(keyIndex \<mapsto>
                      stats\<lparr>rateLimitUntil := Some (now + durationMs)\<rparr>)\<rparr>)))"

definition markFailed :: "api_key \<Rightarrow> rotator \<Rightarrow> error + rotator" where
  "markFailed apiKey r =
     (case indexOf (apiKeys r) apiKey of
        None \<Rightarrow> Inr r
      | Some keyIndex \<Rightarrow>
          (case keyStats r keyIndex of
             None \<Rightarrow> Inl (cannotRead ''undefined'' ''failures'')
           | Some stats \<Rightarrow>
               Inr (r\<lparr>keyStats := (keyStats r)(keyIndex \<mapsto> stats\<lparr>failures := failures stats + 1\<rparr>),
                      failedKeys := (if failures stats + 1 \<ge> 5 then insert keyIndex (failedKeys r)
                                     else failedKeys r)\<rparr>)))"

definition markSuccess :: "api_key \<Rightarrow> rotator \<Rightarrow> error + rotator" where
  "markSuccess apiKey r =
     (case indexOf (apiKeys r) apiKey of
        None \<Rightarrow> Inr r
      | Some keyIndex \<Rightarrow>
          (case keyStats r keyIndex of
             None \<Rightarrow> Inl (cannotSet ''undefined'' ''failures'')
           | Some stats \<Rightarrow>
               Inr (r\<lparr>keyStats := (keyStats r)(keyIndex \<mapsto> stats\<lparr>failures := 0\<rparr>),
                      failedKeys := failedKeys r - {keyIndex}\<rparr>)))"

definition resetRateLimits :: "rotator \<Rightarrow> rotator" where
  "resetRateLimits r =
     r\<lparr>keyStats := (\<lambda>i. map_option (\<lambda>stats. stats\<lparr>rateLimitUntil := None\<rparr>) (keyStats r i))\<rparr>"

text \<open>
  A credential is a position of the pool: the statistics, the cooldown and the disabled
  flag are all kept per index. It is usable when it is neither cooling down nor disabled.
\<close>

definition usable :: "rotator \<Rightarrow> int \<Rightarrow> nat \<Rightarrow> bool" where
  "usable r now i =
     (i < length (apiKeys r) \<and> i \<notin> failedKeys r \<and>
      (case keyStats r i of None \<Rightarrow> False | Some stats \<Rightarrow> \<not> isRateLimited stats now))"

text \<open>
  \<open>getAvailableKeyCount()\<close>: the number of usable credentials; it reads the statistics of
  every position.
\<close>

definition getAvailableKeyCount :: "int \<Rightarrow> rotator \<Rightarrow> error + nat" where
  "getAvailableKeyCount now r =
     (if list_all (\<lambda>i. keyStats r i \<noteq> None) [0..<length (apiKeys r)]
      then Inr (length (filter (usable r now) [0..<length (apiKeys r)]))
      else Inl (cannotRead ''undefined'' ''rateLimitUntil''))"

text \<open>The states the constructor and the methods produce.\<close>

definition wf_rotator :: "rotator \<Rightarrow> bool" where
  "wf_rotator r =
     (currentIndex r < length (apiKeys r) \<and>
      list_all (\<lambda>i. keyStats r i \<noteq> None) [0..<length (apiKeys r)])"

text \<open>A call of one of the rotator's methods, and a sequence of timed calls.\<close>

datatype call =
    GetNextKey
  | MarkRateLimited api_key int
  | MarkFailed api_key
  | MarkSuccess api_key
  | ResetRateLimits

fun exec :: "int \<times> call \<Rightarrow> rotator \<Rightarrow> error + rotator" where
  "exec (now, GetNextKey) r = map_sum id snd (getNextKey now r)"
| "exec (now, MarkRateLimited k d) r = markRateLimited k d now r"
| "exec (now, MarkFailed k) r = markFailed k r"
| "exec (now, MarkSuccess k) r = markSuccess k r"
| "exec (now, ResetRateLimits) r = Inr (resetRateLimits r)"

fun run :: "(int \<times> call) list \<Rightarrow> rotator \<Rightarrow> error + rotator" where
  "run [] r = Inr r"
| "run (c # cs) r = (case exec c r of Inl e \<Rightarrow> Inl e | Inr r' \<Rightarrow> run cs r')"

text \<open>
  What may happen between marking credential \<open>i\<close> rate-limited and a later selection for
  the cooldown to be still in force at \<open>deadline\<close>: the rate limits are not reset, and a
  new marking of the same credential does not end sooner.
\<close>

definition keepsCooldown :: "api_key list \<Rightarrow> nat \<Rightarrow> int \<Rightarrow> int \<times> call \<Rightarrow> bool" where
  "keepsCooldown keys i deadline tc =
     (case snd tc of
        ResetRateLimits \<Rightarrow> False
      | MarkRateLimited k d \<Rightarrow> indexOf keys k = Some i \<longrightarrow> deadline \<le> fst tc + d
      | _ \<Rightarrow> True)"

definition coolingUntil :: "rotator \<Rightarrow> nat \<Rightarrow> int \<Rightarrow> bool" where
  "coolingUntil r i deadline =
     (case keyStats r i of None \<Rightarrow> False
      | Some stats \<Rightarrow> (case rateLimitUntil stats of None \<Rightarrow> False | Some u \<Rightarrow> deadline \<le> u))"

text \<open>A pool of three keys, used as a concrete input below.\<close>

definition pool3 :: rotator where
  "pool3 = ApiKeyRotator [Some ''a'', Some ''b'', Some ''c''] None"

definition calls3 :: "(int \<times> call) list" where
  "calls3 = [(1500, GetNextKey), (2000, MarkFailed (Some ''b'')),
             (2500, MarkRateLimited (Some ''a'') 60000), (3000, MarkRateLimited (Some ''c'') 10)]"

definition cooled3 :: rotator where
  "cooled3 = projr (markRateLimited (Some ''a'') 60000 1000 pool3)"

definition later3 :: rotator where
  "later3 = projr (run calls3 cooled3)"

text \<open>
  A pool that holds the key \<open>a\<close> twice, after \<open>a\<close> was marked rate-limited at time 10 for
  100 milliseconds; and the pool of three keys after a second, shorter marking of \<open>a\<close> and
  after a reset of the rate limits.
\<close>

definition dup3 :: rotator where
  "dup3 = ApiKeyRotator [Some ''a'', Some ''a'', Some ''b''] None"

definition marked_dup3 :: rotator where
  "marked_dup3 = projr (markRateLimited (Some ''a'') 100 10 dup3)"

definition remarked3 :: rotator where
  "remarked3 = projr (run [(1000, MarkRateLimited (Some ''a'') 60000),
                           (2000, MarkRateLimited (Some ''a'') 10)] pool3)"

definition reset3 :: rotator where
  "reset3 = projr (run [(1000, MarkRateLimited (Some ''a'') 60000), (2000, ResetRateLimits)] pool3)"

definition single1 :: rotator where
  "single1 = \<lparr>apiKeys = [Some ''k''], currentIndex = 0,
     keyStats = [0 \<mapsto> \<lparr>requests = 3, failures = 5, lastUsed = Some 10, rateLimitUntil = Some 100\<rparr>],
     failedKeys = {0}\<rparr>"


definition calls6 :: "(int \<times> call) list" where
  "calls6 = [(1, GetNextKey), (2, GetNextKey), (3, GetNextKey),
             (4, MarkRateLimited (Some ''a'') 60000), (5, GetNextKey),
             (6, MarkRateLimited (Some ''b'') 60000), (7, MarkRateLimited (Some ''c'') 60000)]"

definition exhausted3 :: rotator where
  "exhausted3 = projr (run calls6 pool3)"

section \<open>HybridSearchManager: deduplication\<close>

text \<open>\<open>Number.prototype.toString(36)\<close> of an integer.\<close>

definition digit36 :: "nat \<Rightarrow> char" where
  "digit36 d = (if d < 10 then char_of (48 + d) else char_of (87 + d))"

function toString36_nat :: "nat \<Rightarrow> string" where
  "toString36_nat n = (if n < 36 then [digit36 n] else toString36_nat (n div 36) @ [digit36 (n mod 36)])"
  by pat_completeness auto
termination
  by (relation "measure id") auto

definition toString36 :: "int \<Rightarrow> string" where
  "toString36 i = (if i < 0 then CHR ''-'' # toString36_nat (nat (- i)) else toString36_nat (nat i))"

text \<open>The decimal \<open>String(n)\<close> of an integer.\<close>

function toString10_nat :: "nat \<Rightarrow> string" where
  "toString10_nat n = (if n < 10 then [char_of (48 + n)] else toString10_nat (n div 10) @ [char_of (48 + n mod 10)])"
  by pat_completeness auto
termination
  by (relation "measure id") auto

definition toString10 :: "int \<Rightarrow> string" where
  "toString10 i = (if i < 0 then CHR ''-'' # toString10_nat (nat (- i)) else toString10_nat (nat i))"

text \<open>
  One step of the loop of \<open>hashText\<close>: \<open>hash = ((hash << 5) - hash) + char; hash = hash & hash\<close>.
  The shift and the final \<open>&\<close> work on 32-bit integers, and the exact difference and sum
  in between stay below \<open>2 ^ 53\<close>, so the step is the same arithmetic on a 32-bit word.
\<close>

definition hashStep :: "32 word \<Rightarrow> char \<Rightarrow> 32 word" where
  "hashStep hash c = (push_bit 5 hash - hash) + of_nat (of_char c)"

definition hashText :: "string \<Rightarrow> string" where
  "hashText text =
     (if text = [] then ''0''
      else
        let normalized = trim (toLowerCase (take 200 text)) in
        toString36 (sint (foldl hashStep 0 normalized)))"

text \<open>\<open>docId || id\<close> takes the first truthy identifier.\<close>

definition truthy_id :: "js_id option \<Rightarrow> bool" where
  "truthy_id v =
     (case v of
        None \<Rightarrow> False
      | Some (IdStr s) \<Rightarrow> s \<noteq> []
      | Some (IdNum n) \<Rightarrow> n \<noteq> 0
      | Some IdNull \<Rightarrow> False)"

definition or_id :: "js_id option \<Rightarrow> js_id option \<Rightarrow> js_id option" where
  "or_id a b = (if truthy_id a then a else b)"

text \<open>The text a template literal puts in for an identifier.\<close>

definition template_id :: "js_id option \<Rightarrow> string" where
  "template_id v =
     (case v of
        None \<Rightarrow> ''undefined''
      | Some (IdStr s) \<Rightarrow> s
      | Some (IdNum n) \<Rightarrow> toString10 n
      | Some IdNull \<Rightarrow> ''null'')"

definition dedupKey :: "'a document_scheme \<Rightarrow> string" where
  "dedupKey result =
     template_id (or_id (docId result) (id' result)) @ ''_'' @ hashText (or_empty (text' result))"

text \<open>The loop of \<open>deduplicateResults\<close>, with the keys seen so far.\<close>

fun deduplicate_loop :: "string set \<Rightarrow> 'a document_scheme list \<Rightarrow> 'a document_scheme list" where
  "deduplicate_loop seen [] = []"
| "deduplicate_loop seen (result # results) =
     (let key = dedupKey result in
      if key \<notin> seen then result # deduplicate_loop (insert key seen) results
      else deduplicate_loop seen results)"

definition deduplicateResults :: "'a document_scheme list \<Rightarrow> 'a document_scheme list" where
  "deduplicateResults results = deduplicate_loop {} results"

text \<open>
  A concrete input: two results for document \<open>d1\<close> whose texts differ in case and in
  white space around them, and a result with the same text for document \<open>d2\<close>.
\<close>

definition results3 :: "document list" where
  "results3 =
     [(textDoc ''Hello'')\<lparr>docId := Some (IdStr ''d1'')\<rparr>,
      (textDoc '' HELLO '')\<lparr>docId := Some (IdStr ''d1''), title := Some ''copy''\<rparr>,
      (textDoc ''Hello'')\<lparr>docId := Some (IdStr ''d2'')\<rparr>]"

section \<open>BM25\<close>

subsection \<open>Regular expressions\<close>

text \<open>
  The regular expressions of \<open>tokenize\<close> are sequences of character classes, each with a
  quantifier. A match is found as JavaScript finds it: every quantifier takes the longest
  run first and gives characters back one by one when the rest of the pattern fails.
  \<open>matchItems\<close> returns the text matched by each item.
\<close>

datatype quantifier = One | Opt | Star | Plus

type_synonym item = "(char \<Rightarrow> bool) \<times> quantifier"

fun candidates :: "quantifier \<Rightarrow> nat \<Rightarrow> nat list" where
  "candidates One m = (if 0 < m then [1] else [])"
| "candidates Opt m = (if 0 < m then [1, 0] else [0])"
| "candidates Star m = rev [0..<Suc m]"
| "candidates Plus m = rev [1..<Suc m]"

fun firstSome :: "('a \<Rightarrow> 'b option) \<Rightarrow> 'a list \<Rightarrow> 'b option" where
  "firstSome f [] = None"
| "firstSome f (x # xs) = (case f x of Some y \<Rightarrow> Some y | None \<Rightarrow> firstSome f xs)"

fun matchItems :: "item list \<Rightarrow> string \<Rightarrow> string list option" where
  "matchItems [] s = Some []"
| "matchItems ((cls, q) # items) s =
     firstSome (\<lambda>n. map_option (\<lambda>ps. take n s # ps) (matchItems items (drop n s)))
       (candidates q (length (takeWhile cls s)))"

text \<open>
  \<open>String.prototype.replace\<close> with a global regular expression: the leftmost match is
  replaced and the search goes on behind it; after an empty match one character is copied.
\<close>

function replaceAll :: "item list \<Rightarrow> (string list \<Rightarrow> string) \<Rightarrow> string \<Rightarrow> string" where
  "replaceAll items f [] = (case matchItems items [] of None \<Rightarrow> [] | Some ps \<Rightarrow> f ps)"
| "replaceAll items f (c # cs) =
     (case matchItems items (c # cs) of
        None \<Rightarrow> c # replaceAll items f cs
      | Some ps \<Rightarrow>
          (let n = length (concat ps) in
           if n = 0 then f ps @ c # replaceAll items f cs
           else f ps @ replaceAll items f (drop n (c # cs))))"
  by pat_completeness auto
termination
  by (relation "measure (\<lambda>(items, f, s). length s)") auto

declare replaceAll.simps [simp del]

definition isDigit :: "char \<Rightarrow> bool" where
  "isDigit c = (48 \<le> (of_char c :: nat) \<and> (of_char c :: nat) \<le> 57)"

definition isUpper :: "char \<Rightarrow> bool" where
  "isUpper c = (65 \<le> (of_char c :: nat) \<and> (of_char c :: nat) \<le> 90)"

definition isLower :: "char \<Rightarrow> bool" where
  "isLower c = (97 \<le> (of_char c :: nat) \<and> (of_char c :: nat) \<le> 122)"

text \<open>\<open>\w\<close> is \<open>[A-Za-z0-9_]\<close>.\<close>

definition isWordChar :: "char \<Rightarrow> bool" where
  "isWordChar c = (isUpper c \<or> isLower c \<or> isDigit c \<or> c = CHR ''_'')"

text \<open>A letter of a pattern with the flag \<open>i\<close> matches itself in either case.\<close>

definition letter_i :: "char \<Rightarrow> char \<Rightarrow> bool" where
  "letter_i l c = (c = l \<or> (isUpper c \<and> char_of (of_char c + (32::nat)) = l))"

text \<open>\<open>/(\d+)\s+([A-Z][a-z]+\.?)\s+(\d+)/g\<close>, replaced by \<open>$1_$2_$3\<close>.\<close>

definition citationPattern :: "item list" where
  "citationPattern =
     [(isDigit, Plus), (isWhiteSpace, Plus), (isUpper, One), (isLower, Plus),
      ((\<lambda>c. c = CHR ''.''), Opt), (isWhiteSpace, Plus), (isDigit, Plus)]"

definition citationReplacement :: "string list \<Rightarrow> string" where
  "citationReplacement ps = ps ! 0 @ ''_'' @ (ps ! 2 @ ps ! 3 @ ps ! 4) @ ''_'' @ ps ! 6"

text \<open>\<open>/section\s+(\d+[a-z]?)\s*\(([a-z0-9]+)\)/gi\<close>, replaced by \<open>section_$1_$2\<close>.\<close>

definition sectionPattern :: "item list" where
  "sectionPattern =
     [(letter_i CHR ''s'', One), (letter_i CHR ''e'', One), (letter_i CHR ''c'', One),
      (letter_i CHR ''t'', One), (letter_i CHR ''i'', One), (letter_i CHR ''o'', One),
      (letter_i CHR ''n'', One), (isWhiteSpace, Plus), (isDigit, Plus),
      ((\<lambda>c. isLower c \<or> isUpper c), Opt), (isWhiteSpace, Star), ((\<lambda>c. c = CHR ''(''), One),
      ((\<lambda>c. isLower c \<or> isUpper c \<or> isDigit c), Plus), ((\<lambda>c. c = CHR '')''), One)]"

definition sectionReplacement :: "string list \<Rightarrow> string" where
  "sectionReplacement ps = ''section_'' @ (ps ! 8 @ ps ! 9) @ ''_'' @ ps ! 12"

text \<open>\<open>.replace(/[^\w\s_]/g, ' ')\<close>.\<close>

definition removeSpecial :: "string \<Rightarrow> string" where
  "removeSpecial s = map (\<lambda>c. if isWordChar c \<or> isWhiteSpace c \<or> c = CHR ''_'' then c else CHR '' '') s"

text \<open>
  \<open>.split(/\s+/)\<close>: the pieces between the runs of white space, with an empty piece
  before a leading and after a trailing run. The flag says that the last character was
  white space; \<open>cur\<close> is the piece read so far.
\<close>

fun split_loop :: "bool \<Rightarrow> string \<Rightarrow> string \<Rightarrow> string list" where
  "split_loop inSpace cur [] = [cur]"
| "split_loop inSpace cur (c # cs) =
     (if isWhiteSpace c then (if inSpace then split_loop True cur cs else cur # split_loop True [] cs)
      else split_loop False (cur @ [c]) cs)"

definition splitWhiteSpace :: "string \<Rightarrow> string list" where
  "splitWhiteSpace s = split_loop False [] s"

subsection \<open>Tokens\<close>

definition legalAbbreviations :: "string list" where
  "legalAbbreviations =
     [''v'', ''vs'', ''sc'', ''hc'', ''us'', ''uk'', ''eu'', ''ca'', ''ny'', ''dc'',
      ''j'', ''cj'', ''jj'', ''llp'', ''llc'', ''inc'', ''ltd'', ''plc'']"

definition isLegalAbbreviation :: "string \<Rightarrow> bool" where
  "isLegalAbbreviation term = (toLowerCase term \<in> set legalAbbreviations)"

definition stopWords :: "string list" where
  "stopWords =
     [''the'', ''a'', ''an'', ''and'', ''or'', ''but'', ''in'', ''on'', ''at'', ''to'', ''for'',
      ''of'', ''with'', ''by'', ''from'', ''as'', ''is'', ''was'', ''are'', ''were'', ''been'',
      ''be'', ''have'', ''has'', ''had'', ''do'', ''does'', ''did'', ''will'', ''would'',
      ''should'', ''could'', ''may'', ''might'', ''must'', ''can'', ''this'', ''that'',
      ''these'', ''those'', ''i'', ''you'', ''he'', ''she'', ''it'', ''we'', ''they'']"

definition isStopWord :: "string \<Rightarrow> bool" where
  "isStopWord term = (toLowerCase term \<in> set stopWords)"

definition keepTerm :: "string \<Rightarrow> bool" where
  "keepTerm term =
     (if length term \<le> 2 \<and> \<not> isLegalAbbreviation term then False else \<not> isStopWord term)"

definition tokenize :: "string \<Rightarrow> string list" where
  "tokenize input =
     (if input = [] then []
      else filter keepTerm
             (splitWhiteSpace
               (removeSpecial
                 (replaceAll sectionPattern sectionReplacement
                   (replaceAll citationPattern citationReplacement (toLowerCase input))))))"

subsection \<open>The index\<close>

text \<open>
  Numbers are real numbers: the model has the exact values where JavaScript has their
  nearest doubles, and no \<open>Infinity\<close> or \<open>NaN\<close> (a quotient with divisor 0 is 0 in HOL).
\<close>

record bm25_options =
  opt_k1 :: "real option"
  opt_b :: "real option"

record 'a bm25 =
  k1 :: real
  bParam :: real
  documents :: "'a document_scheme list"
  documentCount :: nat
  avgDocLength :: real
  documentLengths :: "nat list"
  idf :: "string \<rightharpoonup> real"
  termFrequencies :: "(string \<rightharpoonup> nat) list"

definition or_real :: "real option \<Rightarrow> real \<Rightarrow> real" where
  "or_real v d = (case v of None \<Rightarrow> d | Some x \<Rightarrow> if x = 0 then d else x)"

text \<open>\<open>doc.text || doc.pageContent || doc.content || doc.title || ''\<close>.\<close>

definition getDocumentText :: "'a document_scheme \<Rightarrow> string" where
  "getDocumentText doc =
     (if truthy (text' doc) then or_empty (text' doc)
      else if truthy (pageContent doc) then or_empty (pageContent doc)
      else if truthy (content doc) then or_empty (content doc)
      else if truthy (title doc) then or_empty (title doc)
      else [])"

text \<open>\<open>(map.get(key) || 0)\<close>.\<close>

definition get_or_0 :: "('k \<rightharpoonup> nat) \<Rightarrow> 'k \<Rightarrow> nat" where
  "get_or_0 m k = (case m k of None \<Rightarrow> 0 | Some n \<Rightarrow> n)"

text \<open>The term frequencies of one document: the loop over its tokens.\<close>

definition countTerms :: "string list \<Rightarrow> (string \<rightharpoonup> nat)" where
  "countTerms tokens = foldl (\<lambda>termFreq token. termFreq(token \<mapsto> get_or_0 termFreq token + 1)) Map.empty tokens"

text \<open>The loop over \<open>termFreq.keys()\<close>: one more document for each of its terms.\<close>

definition countDocument :: "(string \<rightharpoonup> nat) \<Rightarrow> (string \<rightharpoonup> nat) \<Rightarrow> (string \<rightharpoonup> nat)" where
  "countDocument termFreq termDocumentFrequency =
     (\<lambda>term. if termFreq term \<noteq> None then Some (get_or_0 termDocumentFrequency term + 1)
             else termDocumentFrequency term)"

text \<open>
  The first pass of \<open>buildIndex\<close> over the documents, from the arrays of a new index. It
  returns the document lengths, the term frequencies, the total length and the document
  frequencies.
\<close>

fun firstPass :: "'a document_scheme list \<Rightarrow> nat list \<times> (string \<rightharpoonup> nat) list \<times> nat \<times> (string \<rightharpoonup> nat) \<Rightarrow>
    nat list \<times> (string \<rightharpoonup> nat) list \<times> nat \<times> (string \<rightharpoonup> nat)" where
  "firstPass [] acc = acc"
| "firstPass (doc # docs) (lens, tfs, totalLength, tdf) =
     (let tokens = tokenize (getDocumentText doc);
          termFreq = countTerms tokens
      in firstPass docs (lens @ [length tokens], tfs @ [termFreq], totalLength + length tokens,
                         countDocument termFreq tdf))"

definition buildIndex :: "'a bm25 \<Rightarrow> 'a bm25" where
  "buildIndex s =
     (case firstPass (documents s) ([], [], 0, Map.empty) of
        (lens, tfs, totalLength, tdf) \<Rightarrow>
          s\<lparr>documentLengths := lens,
            termFrequencies := tfs,
            avgDocLength := real totalLength / real (documentCount s),
            idf := (\<lambda>term. case tdf term of
                      None \<Rightarrow> idf s term
                    | Some docFreq \<Rightarrow>
                        Some (ln ((real (documentCount s) - real docFreq + 0.5) / (real docFreq + 0.5) + 1)))\<rparr>)"

definition BM25 :: "'a document_scheme list \<Rightarrow> bm25_options \<Rightarrow> 'a bm25" where
  "BM25 docs options =
     (let s = \<lparr>k1 = or_real (opt_k1 options) 1.5, bParam = or_real (opt_b options) 0.75,
                documents = docs, documentCount = length docs, avgDocLength = 0,
                documentLengths = [], idf = Map.empty, termFrequencies = []\<rparr>
      in if length docs > 0 then buildIndex s else s)"

text \<open>One round of the loop of \<open>scoreDocument\<close> over the query tokens.\<close>

definition scoreTerm :: "'a bm25 \<Rightarrow> real \<Rightarrow> (string \<rightharpoonup> nat) \<Rightarrow> real \<Rightarrow> string \<Rightarrow> real" where
  "scoreTerm s docLength termFreq score term =
     (let tf = get_or_0 termFreq term in
      if tf = 0 then score
      else
        let idfValue = (case idf s term of None \<Rightarrow> 0 | Some v \<Rightarrow> v);
            numerator = real tf * (k1 s + 1);
            denominator = real tf + k1 s * (1 - bParam s + bParam s * (docLength / avgDocLength s))
        in score + idfValue * (numerator / denominator))"

text \<open>
  \<open>scoreDocument(docIndex, queryTokens)\<close>. Outside the index there are no term
  frequencies to read, and the first round of the loop throws.
\<close>

definition scoreDocument :: "'a bm25 \<Rightarrow> nat \<Rightarrow> string list \<Rightarrow> error + real" where
  "scoreDocument s docIndex queryTokens =
     (if queryTokens = [] then Inr 0
      else if docIndex < length (termFrequencies s) \<and> docIndex < length (documentLengths s)
      then Inr (foldl (scoreTerm s (real (documentLengths s ! docIndex)) (termFrequencies s ! docIndex))
                  0 queryTokens)
      else Inl (cannotRead ''undefined'' ''get''))"

text \<open>A result of \<open>search\<close>; \<open>normalizeScores\<close> reads and writes the property \<open>bm25Score\<close>.\<close>

record 'a hit =
  index :: nat
  score :: real
  document :: "'a document_scheme"
  bm25Score :: "real option"

fun search_loop :: "'a bm25 \<Rightarrow> string list \<Rightarrow> nat list \<Rightarrow> error + 'a hit list" where
  "search_loop s queryTokens [] = Inr []"
| "search_loop s queryTokens (i # is) =
     (case scoreDocument s i queryTokens of
        Inl e \<Rightarrow> Inl e
      | Inr sc \<Rightarrow>
          (case search_loop s queryTokens is of
             Inl e \<Rightarrow> Inl e
           | Inr hits \<Rightarrow> Inr (\<lparr>index = i, score = sc, document = documents s ! i, bm25Score = None\<rparr> # hits)))"

text \<open>
  \<open>search(query, topK)\<close>: \<open>Array.prototype.sort\<close> is stable, and so is \<open>sort_key\<close>; the
  comparison \<open>b.score - a.score\<close> puts the higher score first.
\<close>

definition search :: "'a bm25 \<Rightarrow> string \<Rightarrow> nat \<Rightarrow> error + 'a hit list" where
  "search s query topK =
     (case search_loop s (tokenize query) [0..<documentCount s] of
        Inl e \<Rightarrow> Inl e
      | Inr scores \<Rightarrow> Inr (take topK (sort_key (\<lambda>h. - score h) scores)))"

definition score_or_0 :: "real option \<Rightarrow> real" where
  "score_or_0 v = (case v of None \<Rightarrow> 0 | Some x \<Rightarrow> x)"

definition normalizeScores :: "'a hit list \<Rightarrow> 'a hit list" where
  "normalizeScores results =
     (if results = [] then results
      else
        let maxScore = fold max (map (\<lambda>r. score_or_0 (bm25Score r)) (tl results))
                         (score_or_0 (bm25Score (hd results)))
        in if maxScore = 0 then results
           else map (\<lambda>r. r\<lparr>bm25Score := Some (score_or_0 (bm25Score r) / maxScore)\<rparr>) results)"

text \<open>
  \<open>HybridSearchManager.performBM25Search\<close>, from the documents of the workspace on. An
  entry of the result is the document with its property \<open>bm25Score\<close>; an exception
  gives the empty list.
\<close>

text \<open>The options \<open>{ k1: 1.5, b: 0.75 }\<close> of \<open>performBM25Search\<close>.\<close>

definition searchOptions :: bm25_options where
  "searchOptions = \<lparr>opt_k1 = Some 1.5, opt_b = Some 0.75\<rparr>"

definition performBM25Search :: "'a document_scheme list \<Rightarrow> string \<Rightarrow> nat \<Rightarrow> ('a document_scheme \<times> real) list" where
  "performBM25Search allDocs query topN =
     (if allDocs = [] then []
      else
        let bm25 = BM25 allDocs searchOptions in
        case search bm25 query topN of
          Inl e \<Rightarrow> []
        | Inr results \<Rightarrow> map (\<lambda>r. (document r, score r)) (normalizeScores results))"

subsection \<open>Notions for the properties\<close>

text \<open>The tokens of a document, and the number of documents that contain a term.\<close>

definition docTokens :: "'a document_scheme \<Rightarrow> string list" where
  "docTokens doc = tokenize (getDocumentText doc)"

definition docFreq :: "'a document_scheme list \<Rightarrow> string \<Rightarrow> nat" where
  "docFreq docs term = length (filter (\<lambda>doc. term \<in> set (docTokens doc)) docs)"

text \<open>Concrete inputs: two small collections of documents.\<close>

definition docs4 :: "document list" where
  "docs4 = [textDoc ''alpha'', textDoc ''beta'', textDoc ''gamma'', textDoc ''delta'']"

definition docs2 :: "document list" where
  "docs2 = [textDoc ''contract breach'', textDoc ''tort law'']"

section \<open>ParallelDocumentProcessor\<close>

text \<open>
  \<open>chunkArray(array, size)\<close>: the loop \<open>for (i = 0; i < array.length; i += size)\<close> pushes
  \<open>array.slice(i, i + size)\<close>. With \<open>size = 0\<close> and a non-empty array it never ends;
  \<open>None\<close> stands for that. Sizes are natural numbers.
\<close>

partial_function (option) chunkArray_loop :: "'a list \<Rightarrow> nat \<Rightarrow> nat \<Rightarrow> 'a list list \<Rightarrow> 'a list list option" where
  "chunkArray_loop array sz i chunks =
     (if i < length array
      then chunkArray_loop array sz (i + sz) (chunks @ [take sz (drop i array)])
      else Some chunks)"

definition chunkArray :: "'a list \<Rightarrow> nat \<Rightarrow> 'a list list option" where
  "chunkArray array sz = chunkArray_loop array sz 0 []"

text \<open>\<open>path.split("/")[1]\<close>: the text between the first and the second slash, if any.\<close>

definition split_slash_1 :: "string \<Rightarrow> string option" where
  "split_slash_1 path =
     (let rest = dropWhile (\<lambda>c. c \<noteq> CHR ''/'') path in
      if rest = [] then None else Some (takeWhile (\<lambda>c. c \<noteq> CHR ''/'') (tl rest)))"


record processor_stats =
  total :: nat
  processed :: nat
  failed :: nat
  skipped :: nat

record processor =
  concurrency :: nat
  batchSize :: nat
  dbBatchSize :: nat
  retryAttempts :: nat
  retryDelay :: nat
  stats :: processor_stats



datatype document_result =
    Success string "string option" string
  | Failure "string option" "string option"

text \<open>
  The collaborators of \<open>processDocuments\<close>. \<open>fileData(path)\<close> throws, returns nothing, or
  returns the document's data, of which the title is read;
  \<open>VectorDb.addDocumentToNamespace\<close> throws or returns \<open>vectorized\<close> and \<open>error\<close>; \<open>uuidv4()\<close>
  returns an identifier: these are functions of the path and the attempt. The documents
  of a batch are processed side by side, and \<open>settledAt path\<close> is the time at which the
  promise of a document settles. \<open>createMany\<close> and \<open>create\<close> are the two writes of
  \<open>prisma.workspace_documents\<close>, which throw or succeed; the rows they are given are the
  successful results.
\<close>

record 'a world =
  fileData :: "string \<Rightarrow> nat \<Rightarrow> error + 'a document_scheme option"
  vectorize :: "string \<Rightarrow> nat \<Rightarrow> error + (bool \<times> string option)"
  uuidv4 :: "string \<Rightarrow> nat \<Rightarrow> string"
  settledAt :: "string \<Rightarrow> nat"
  createMany :: "document_result list \<Rightarrow> error option"
  create :: "document_result \<Rightarrow> error option"

text \<open>
  \<open>processSingleDocument(workspace, path, VectorDb, attempt)\<close>, with the returned promise
  as a sum: \<open>Inr\<close> is the result it is fulfilled with, \<open>Inl\<close> the reason it is rejected
  with. An exception of the \<open>try\<close> block is caught. The \<open>catch\<close> block first reads
  \<open>error.message\<close>, which throws when the caught value is \<open>null\<close> or \<open>undefined\<close>, and
  nothing catches that. Otherwise the function calls itself with \<open>attempt + 1\<close> while
  \<open>attempt < this.retryAttempts\<close>.
\<close>

function processSingleDocument :: "'a world \<Rightarrow> processor \<Rightarrow> string \<Rightarrow> nat \<Rightarrow> error + document_result" where
  "processSingleDocument w p path attempt =
     (case fileData w path attempt of
        Inl e \<Rightarrow>
          (case readMessage e of
             Inl thrown \<Rightarrow> Inl thrown
           | Inr m \<Rightarrow>
               if attempt < retryAttempts p then processSingleDocument w p path (attempt + 1)
               else Inr (Failure (Some path) m))
      | Inr None \<Rightarrow> Inr (Failure (Some path) (Some ''Failed to load document data''))
      | Inr (Some data) \<Rightarrow>
          (case vectorize w path attempt of
             Inl e \<Rightarrow>
               (case readMessage e of
                  Inl thrown \<Rightarrow> Inl thrown
                | Inr m \<Rightarrow>
                    if attempt < retryAttempts p then processSingleDocument w p path (attempt + 1)
                    else Inr (Failure (Some path) m))
           | Inr (vectorized, err) \<Rightarrow>
               if \<not> vectorized then
                 if attempt < retryAttempts p then processSingleDocument w p path (attempt + 1)
                 else Inr (Failure (if truthy (title data) then title data else split_slash_1 path)
                             (if truthy err then err else Some ''Vectorization failed''))
               else Inr (Success (uuidv4 w path attempt) (split_slash_1 path) path)))"
  by pat_completeness auto
termination
  by (relation "measure (\<lambda>(w, p, path, attempt). retryAttempts p - attempt)") auto

declare processSingleDocument.simps [simp del]

text \<open>The flag \<open>result.success\<close>.\<close>

definition succeeded :: "document_result \<Rightarrow> bool" where
  "succeeded res = (case res of Success _ _ _ \<Rightarrow> True | Failure _ _ \<Rightarrow> False)"

text \<open>
  The report of \<open>processDocuments\<close>: the paths embedded, the file names that failed, the
  set of error messages; and the statistics.
\<close>

record report =
  embedded :: "string list"
  failedToEmbed :: "string option list"
  errors :: "string option set"











definition succeeds :: "'a world \<Rightarrow> processor \<Rightarrow> string \<Rightarrow> bool" where
  "succeeds w p path =
     (case processSingleDocument w p path 1 of Inl thrown \<Rightarrow> False | Inr res \<Rightarrow> succeeded res)"

text \<open>
  What the documents \<open>paths\<close> add to the report and to the statistics when each of them
  is counted once, between the state \<open>acc\<close> and the state \<open>acc'\<close>.
\<close>

definition accounted :: "'a world \<Rightarrow> processor \<Rightarrow> string list \<Rightarrow> report \<times> processor_stats \<Rightarrow> report \<times> processor_stats \<Rightarrow> bool" where
  "accounted w p paths acc acc' =
     (embedded (fst acc') = embedded (fst acc) @ filter (succeeds w p) paths \<and>
      length (failedToEmbed (fst acc')) =
        length (failedToEmbed (fst acc)) + length (filter (\<lambda>path. \<not> succeeds w p path) paths) \<and>
      processed (snd acc') = processed (snd acc) + length (filter (succeeds w p) paths) \<and>
      failed (snd acc') = failed (snd acc) + length (filter (\<lambda>path. \<not> succeeds w p path) paths) \<and>
      total (snd acc') = total (snd acc))"






section \<open>ParallelGeminiEmbedder\<close>

text \<open>
  The embedding service. A text has one embedding, \<open>embedding text\<close>. The requests of a
  call of \<open>embedChunks\<close> are numbered from 0 in the order in which they are sent. A request
  is made with an API key at a time; it fails with an exception or succeeds, and a
  successful request returns the embeddings of the texts it was given, one for each text
  and in their order. Request \<open>n\<close> is answered \<open>responseTime n\<close> milliseconds after it was
  sent.
\<close>

type_synonym vector = "real list"

record provider =
  embedding :: "string \<Rightarrow> vector"
  batchEmbedContents :: "nat \<Rightarrow> api_key \<Rightarrow> int \<Rightarrow> string list \<Rightarrow> error option"
  embedContent :: "nat \<Rightarrow> api_key \<Rightarrow> int \<Rightarrow> string \<Rightarrow> error option"
  responseTime :: "nat \<Rightarrow> nat"

record embedder_stats =
  totalChunks :: nat
  successfulChunks :: nat
  failedChunks :: int
  totalRequests :: nat
  rateLimitHits :: nat

text \<open>
  The state of an embedder between two calls: the shared rotator, the statistics, and the
  clock.
\<close>

record embedder =
  keyRotator :: rotator
  embedStats :: embedder_stats
  clock :: int

definition maxBatchSize :: nat where "maxBatchSize = 100"
definition maxRetries :: nat where "maxRetries = 3"
definition embedRetryDelay :: int where "embedRetryDelay = 1000"
definition concurrentRequests :: nat where "concurrentRequests = 10"

definition ParallelGeminiEmbedder :: "rotator \<Rightarrow> int \<Rightarrow> embedder" where
  "ParallelGeminiEmbedder rot now =
     \<lparr>keyRotator = rot,
      embedStats = \<lparr>totalChunks = 0, successfulChunks = 0, failedChunks = 0,
                     totalRequests = 0, rateLimitHits = 0\<rparr>,
      clock = now\<rparr>"

text \<open>
  \<open>embedChunks\<close> starts \<open>embedBatch\<close> for up to ten batches at once, through the
  \<open>ConcurrencyLimiter\<close>, and the batches run side by side on one thread: each runs until
  it waits for an answer of the service or for a timer, and goes on when the event loop
  hands it the answer or the timer. An event is what a batch waits for, together with the
  variables with which it goes on: the index and the texts of the batch, the attempt, the
  API key drawn, the answer of the service; for \<open>embedIndividually\<close> the text in work,
  the texts that follow and the embeddings pushed so far.
\<close>

datatype event =
    BatchAnswer nat "string list" nat api_key "error option"
  | RetryBatch nat "string list" nat
  | SingleAnswer nat string "string list" "vector option list" api_key "error option"
  | NextSingle nat "string list" "vector option list"
  | Settled nat "error + vector list"
  | Wake nat "string list"

text \<open>
  The state while \<open>embedChunks\<close> runs: the embedder; the number of requests sent; the
  limiter's count of running batches and its queue of waiting ones; the microtasks, which
  are continuations ready to run, in their order; the timers and the pending answers of
  the service with the time at which each is due, in the order in which they were set;
  and the results of the batches that are done.
\<close>

record run_state =
  keyRotator' :: rotator
  embedStats' :: embedder_stats
  clock' :: int
  sent :: nat
  running :: nat
  queue :: "(nat \<times> string list) list"
  microtasks :: "event list"
  timers :: "(int \<times> event) list"
  batchResults :: "nat \<rightharpoonup> vector list"

definition start :: "embedder \<Rightarrow> run_state" where
  "start e = \<lparr>keyRotator' = keyRotator e, embedStats' = embedStats e, clock' = clock e,
     sent = 0, running = 0, queue = [], microtasks = [], timers = [], batchResults = Map.empty\<rparr>"

definition finish :: "run_state \<Rightarrow> embedder" where
  "finish s = \<lparr>keyRotator = keyRotator' s, embedStats = embedStats' s, clock = clock' s\<rparr>"

text \<open>
  \<open>setTimeout\<close>, as \<open>sleep\<close> calls it; the answer to request \<open>n\<close>, which is a microtask when
  the service answers at once; and the microtask in which the limiter goes on after the
  promise of \<open>embedBatch\<close> has been settled.
\<close>

definition setTimeout :: "int \<Rightarrow> event \<Rightarrow> run_state \<Rightarrow> run_state" where
  "setTimeout ms ev s = s\<lparr>timers := timers s @ [(clock' s + ms, ev)]\<rparr>"

definition answer :: "provider \<Rightarrow> nat \<Rightarrow> event \<Rightarrow> run_state \<Rightarrow> run_state" where
  "answer prov n ev s =
     (if responseTime prov n = 0 then s\<lparr>microtasks := microtasks s @ [ev]\<rparr>
      else setTimeout (int (responseTime prov n)) ev s)"

definition settle :: "nat \<Rightarrow> error + vector list \<Rightarrow> run_state \<Rightarrow> run_state" where
  "settle batchIndex res s = s\<lparr>microtasks := microtasks s @ [Settled batchIndex res]\<rparr>"

text \<open>\<open>String.prototype.includes\<close>.\<close>

fun includes_str :: "string \<Rightarrow> string \<Rightarrow> bool" where
  "includes_str [] sub = (sub = [])"
| "includes_str (c # cs) sub = (take (length sub) (c # cs) = sub \<or> includes_str cs sub)"

text \<open>
  The condition \<open>error.message && (error.message.includes('429') || ...)\<close> on the message
  read.
\<close>

definition isRateLimitMessage :: "string option \<Rightarrow> bool" where
  "isRateLimitMessage m =
     (case m of
        None \<Rightarrow> False
      | Some t \<Rightarrow> t \<noteq> [] \<and> (includes_str t ''429'' \<or> includes_str t ''quota'' \<or> includes_str t ''rate limit''))"

text \<open>
  \<open>embedIndividually\<close>, from the text in turn up to the next \<open>await\<close>: a key is drawn and
  the request for the text is sent. An exception of \<open>getNextKey\<close> is caught by the
  \<open>catch\<close> block of the loop, which reads \<open>error.message\<close> and pushes \<open>null\<close>. After the
  last text the \<open>null\<close> entries are filtered out and the promise is fulfilled.
\<close>

fun embedIndividually :: "provider \<Rightarrow> nat \<Rightarrow> string list \<Rightarrow> vector option list \<Rightarrow> run_state \<Rightarrow> run_state" where
  "embedIndividually prov batchIndex [] embeddings s =
     settle batchIndex (Inr (map the (filter (\<lambda>e. e \<noteq> None) embeddings))) s"
| "embedIndividually prov batchIndex (t # textBatch) embeddings s =
     (case getNextKey (clock' s) (keyRotator' s) of
        Inl err \<Rightarrow>
          (case readMessage err of
             Inl thrown \<Rightarrow> settle batchIndex (Inl thrown) s
           | Inr m \<Rightarrow> embedIndividually prov batchIndex textBatch (embeddings @ [None]) s)
      | Inr (apiKey, rot) \<Rightarrow>
          answer prov (sent s)
            (SingleAnswer batchIndex t textBatch embeddings apiKey (embedContent prov (sent s) apiKey (clock' s) t))
            (s\<lparr>keyRotator' := rot, sent := sent s + 1\<rparr>))"

text \<open>
  The \<open>catch\<close> block of the loop for an exception after the request, and the loop after
  the answer: the embedding is pushed, the key is marked successful and the loop sleeps
  for 100 milliseconds.
\<close>

definition catchSingle :: "provider \<Rightarrow> nat \<Rightarrow> string list \<Rightarrow> vector option list \<Rightarrow> error \<Rightarrow> run_state \<Rightarrow> run_state" where
  "catchSingle prov batchIndex textBatch embeddings err s =
     (case readMessage err of
        Inl thrown \<Rightarrow> settle batchIndex (Inl thrown) s
      | Inr m \<Rightarrow> embedIndividually prov batchIndex textBatch (embeddings @ [None]) s)"

definition afterEmbedContent ::
  "provider \<Rightarrow> nat \<Rightarrow> string \<Rightarrow> string list \<Rightarrow> vector option list \<Rightarrow> api_key \<Rightarrow> error option \<Rightarrow>
     run_state \<Rightarrow> run_state" where
  "afterEmbedContent prov batchIndex t textBatch embeddings apiKey outcome s =
     (case outcome of
        Some err \<Rightarrow> catchSingle prov batchIndex textBatch embeddings err s
      | None \<Rightarrow>
          (case markSuccess apiKey (keyRotator' s) of
             Inl err \<Rightarrow> catchSingle prov batchIndex textBatch (embeddings @ [Some (embedding prov t)]) err s
           | Inr rot \<Rightarrow>
               setTimeout 100 (NextSingle batchIndex textBatch (embeddings @ [Some (embedding prov t)]))
                 (s\<lparr>keyRotator' := rot\<rparr>)))"

text \<open>
  \<open>embedBatch(textBatch, batchIndex, attempt)\<close> up to its \<open>await\<close>: the key is drawn before
  the \<open>try\<close> block, so an exception of \<open>getNextKey\<close> rejects the promise; the request is
  counted and sent.
\<close>

definition embedBatch :: "provider \<Rightarrow> nat \<Rightarrow> string list \<Rightarrow> nat \<Rightarrow> run_state \<Rightarrow> run_state" where
  "embedBatch prov batchIndex textBatch attempt s =
     (case getNextKey (clock' s) (keyRotator' s) of
        Inl err \<Rightarrow> settle batchIndex (Inl err) s
      | Inr (apiKey, rot) \<Rightarrow>
          answer prov (sent s)
            (BatchAnswer batchIndex textBatch attempt apiKey
               (batchEmbedContents prov (sent s) apiKey (clock' s) textBatch))
            (s\<lparr>keyRotator' := rot,
               embedStats' := (embedStats' s)\<lparr>totalRequests := totalRequests (embedStats' s) + 1\<rparr>,
               sent := sent s + 1\<rparr>))"

text \<open>
  The start of the \<open>catch\<close> block of \<open>embedBatch\<close>, after \<open>error.message\<close> has been read: the
  key is marked rate-limited for a minute, and the count of available keys is read for
  the log, or the key is marked failed. The result is the exception that the rotator
  threw, if any, and the state.
\<close>

definition markKeyAfterError :: "api_key \<Rightarrow> string option \<Rightarrow> run_state \<Rightarrow> error option \<times> run_state" where
  "markKeyAfterError apiKey m s =
     (if isRateLimitMessage m then
        let s1 = s\<lparr>embedStats' := (embedStats' s)\<lparr>rateLimitHits := rateLimitHits (embedStats' s) + 1\<rparr>\<rparr> in
        (case markRateLimited apiKey 60000 (clock' s1) (keyRotator' s1) of
           Inl thrown \<Rightarrow> (Some thrown, s1)
         | Inr rot \<Rightarrow>
             (case getAvailableKeyCount (clock' s1) rot of
                Inl thrown \<Rightarrow> (Some thrown, s1\<lparr>keyRotator' := rot\<rparr>)
              | Inr available \<Rightarrow> (None, s1\<lparr>keyRotator' := rot\<rparr>)))
      else
        (case markFailed apiKey (keyRotator' s) of
           Inl thrown \<Rightarrow> (Some thrown, s)
         | Inr rot \<Rightarrow> (None, s\<lparr>keyRotator' := rot\<rparr>)))"

text \<open>
  The \<open>catch\<close> block of \<open>embedBatch\<close>. It first reads \<open>error.message\<close>, which throws for a
  \<open>null\<close> or \<open>undefined\<close> reason; nothing catches that, nor an exception of the rotator, and
  the promise is rejected. Otherwise \<open>embedBatch\<close> calls itself with \<open>attempt + 1\<close> after a
  delay of \<open>retryDelay * 2 ^ (attempt - 1)\<close> while \<open>attempt < this.maxRetries\<close>, and falls
  back to \<open>embedIndividually\<close> after the last attempt.
\<close>

definition catchBatch :: "provider \<Rightarrow> nat \<Rightarrow> string list \<Rightarrow> nat \<Rightarrow> api_key \<Rightarrow> error \<Rightarrow> run_state \<Rightarrow> run_state" where
  "catchBatch prov batchIndex textBatch attempt apiKey err s =
     (case readMessage err of
        Inl thrown \<Rightarrow> settle batchIndex (Inl thrown) s
      | Inr m \<Rightarrow>
          (case markKeyAfterError apiKey m s of
             (Some thrown, s1) \<Rightarrow> settle batchIndex (Inl thrown) s1
           | (None, s1) \<Rightarrow>
               if attempt < maxRetries
               then setTimeout (embedRetryDelay * 2 ^ (attempt - 1))
                      (RetryBatch batchIndex textBatch (attempt + 1)) s1
               else embedIndividually prov batchIndex textBatch [] s1))"

text \<open>
  \<open>embedBatch\<close> after the answer to the batch request: the embeddings are taken from the
  result and the key is marked successful, inside the \<open>try\<close> block.
\<close>

definition afterBatchEmbedContents ::
  "provider \<Rightarrow> nat \<Rightarrow> string list \<Rightarrow> nat \<Rightarrow> api_key \<Rightarrow> error option \<Rightarrow> run_state \<Rightarrow> run_state" where
  "afterBatchEmbedContents prov batchIndex textBatch attempt apiKey outcome s =
     (case outcome of
        Some err \<Rightarrow> catchBatch prov batchIndex textBatch attempt apiKey err s
      | None \<Rightarrow>
          (case markSuccess apiKey (keyRotator' s) of
             Inl err \<Rightarrow> catchBatch prov batchIndex textBatch attempt apiKey err s
           | Inr rot \<Rightarrow> settle batchIndex (Inr (map (embedding prov) textBatch)) (s\<lparr>keyRotator' := rot\<rparr>)))"

text \<open>
  \<open>ConcurrencyLimiter.run\<close>: a batch waits in the queue while ten batches are running;
  otherwise it is counted and \<open>embedBatch\<close> starts with attempt 1. The \<open>finally\<close> block
  gives the slot back and wakes the first batch of the queue, which then tests the
  condition of the \<open>while\<close> loop again.
\<close>

definition limiter_run :: "provider \<Rightarrow> nat \<Rightarrow> string list \<Rightarrow> run_state \<Rightarrow> run_state" where
  "limiter_run prov batchIndex textBatch s =
     (if running s \<ge> concurrentRequests then s\<lparr>queue := queue s @ [(batchIndex, textBatch)]\<rparr>
      else embedBatch prov batchIndex textBatch 1 (s\<lparr>running := running s + 1\<rparr>))"

definition limiter_finally :: "run_state \<Rightarrow> run_state" where
  "limiter_finally s =
     (let s1 = s\<lparr>running := running s - 1\<rparr> in
      case queue s1 of
        [] \<Rightarrow> s1
      | (batchIndex, textBatch) # waiting \<Rightarrow>
          s1\<lparr>queue := waiting, microtasks := microtasks s1 @ [Wake batchIndex textBatch]\<rparr>)"

text \<open>
  One turn of the event loop for an event. The result is \<open>Inl\<close> when the promise of a batch
  is rejected, which rejects \<open>Promise.all\<close>: \<open>embedChunks\<close> goes on from there, and what
  the other batches still do is not followed.
\<close>

definition handle :: "provider \<Rightarrow> event \<Rightarrow> run_state \<Rightarrow> error + run_state" where
  "handle prov ev s =
     (case ev of
        BatchAnswer batchIndex textBatch attempt apiKey outcome \<Rightarrow>
          Inr (afterBatchEmbedContents prov batchIndex textBatch attempt apiKey outcome s)
      | RetryBatch batchIndex textBatch attempt \<Rightarrow> Inr (embedBatch prov batchIndex textBatch attempt s)
      | SingleAnswer batchIndex t textBatch embeddings apiKey outcome \<Rightarrow>
          Inr (afterEmbedContent prov batchIndex t textBatch embeddings apiKey outcome s)
      | NextSingle batchIndex textBatch embeddings \<Rightarrow>
          Inr (embedIndividually prov batchIndex textBatch embeddings s)
      | Wake batchIndex textBatch \<Rightarrow> Inr (limiter_run prov batchIndex textBatch s)
      | Settled batchIndex res \<Rightarrow>
          (case res of
             Inl err \<Rightarrow> Inl err
           | Inr embeddings \<Rightarrow>
               Inr ((limiter_finally s)\<lparr>batchResults := (batchResults s)(batchIndex \<mapsto> embeddings)\<rparr>)))"

text \<open>
  The timer or answer that is due first; of two that are due at the same time, the one
  that was set first.
\<close>

fun nextTimer :: "(int \<times> event) list \<Rightarrow> ((int \<times> event) \<times> (int \<times> event) list) option" where
  "nextTimer [] = None"
| "nextTimer (x # xs) =
     (case nextTimer xs of
        None \<Rightarrow> Some (x, [])
      | Some (y, rest) \<Rightarrow> if fst x \<le> fst y then Some (x, xs) else Some (y, x # rest))"

text \<open>
  The event loop: it ends when all \<open>n\<close> batches are done or one is rejected. The
  microtasks run first, in their order; when none is left, the clock moves on to the
  timer or answer that is due first. \<open>None\<close> stands for a loop that does not end.
\<close>

partial_function (option) eventLoop :: "provider \<Rightarrow> nat \<Rightarrow> run_state \<Rightarrow> (error + run_state) option" where
  "eventLoop prov n s =
     (if list_all (\<lambda>i. batchResults s i \<noteq> None) [0..<n] then Some (Inr s)
      else
        case microtasks s of
          ev # rest \<Rightarrow>
            (case handle prov ev (s\<lparr>microtasks := rest\<rparr>) of
               Inl err \<Rightarrow> Some (Inl err)
             | Inr s1 \<Rightarrow> eventLoop prov n s1)
        | [] \<Rightarrow>
            (case nextTimer (timers s) of
               None \<Rightarrow> None
             | Some ((due, ev), rest) \<Rightarrow>
                 (case handle prov ev (s\<lparr>timers := rest, clock' := due\<rparr>) of
                    Inl err \<Rightarrow> Some (Inl err)
                  | Inr s1 \<Rightarrow> eventLoop prov n s1)))"

text \<open>
  The call \<open>batches.map((batch, index) => this.limiter.run(...))\<close>: the batches are handed
  to the limiter in their order, before any answer is looked at.
\<close>

definition startBatches :: "provider \<Rightarrow> string list list \<Rightarrow> run_state \<Rightarrow> run_state" where
  "startBatches prov batches s =
     foldl (\<lambda>s1 (batchIndex, textBatch). limiter_run prov batchIndex textBatch s1) s (enumerate 0 batches)"

text \<open>
  \<open>embedChunks(textChunks)\<close>, called while the limiter is idle. The results of the batches
  are joined in the order of the batches. When \<open>Promise.all\<close> is rejected, the \<open>catch\<close>
  block reads \<open>error.message\<close> and throws the error again. \<open>None\<close> stands for a call that
  does not return.
\<close>

definition embedChunks :: "provider \<Rightarrow> string list \<Rightarrow> embedder \<Rightarrow> (error + (vector list \<times> embedder)) option" where
  "embedChunks prov textChunks e =
     (if textChunks = [] then Some (Inr ([], e))
      else
        let e1 = e\<lparr>embedStats := (embedStats e)\<lparr>totalChunks :=
                     totalChunks (embedStats e) + length textChunks\<rparr>\<rparr>
        in case chunkArray textChunks maxBatchSize of
             None \<Rightarrow> None
           | Some batches \<Rightarrow>
               (case eventLoop prov (length batches) (startBatches prov batches (start e1)) of
                  None \<Rightarrow> None
                | Some (Inl err) \<Rightarrow>
                    Some (case readMessage err of Inl thrown \<Rightarrow> Inl thrown | Inr m \<Rightarrow> Inl err)
                | Some (Inr s) \<Rightarrow>
                    let allEmbeddings = concat (map (\<lambda>i. the (batchResults s i)) [0..<length batches]);
                        e2 = finish s
                    in Some (Inr (allEmbeddings,
                         e2\<lparr>embedStats := (embedStats e2)\<lparr>
                              successfulChunks := successfulChunks (embedStats e2) + length allEmbeddings,
                              failedChunks := failedChunks (embedStats e2) +
                                (int (length textChunks) - int (length allEmbeddings))\<rparr>\<rparr>))))"

section \<open>ParallelQdrant\<close>

text \<open>
  A point of the vector store: its identifier, the vector, and the payload
  \<open>{ ...metadata, text: textChunks[i] }\<close>, a document object whose text is the chunk.
\<close>

record 'a point =
  pointId :: string
  vector :: vector
  payload :: "'a document_scheme"

text \<open>
  The collaborators of \<open>addDocumentToNamespace\<close>: whether the vector cache has the file,
  the text splitter, the identifiers that \<open>uuidv4\<close> returns, the connection and the
  collection, the result of an upsert, and the two writes that follow it. Of the result
  of an upsert the model keeps \<open>additionResult?.status\<close> and the text
  \<open>JSON.stringify(additionResult)\<close>, which is \<open>undefined\<close> for an \<open>undefined\<close> result.
\<close>

record 'a qdrant_env =
  cacheExists :: bool
  splitText :: "string \<Rightarrow> string list"
  pointUuid :: "nat \<Rightarrow> string"
  connect :: "error option"
  collectionFound :: bool
  upsert :: "'a point list \<Rightarrow> error + (string option \<times> string option)"
  storeAndLink :: "error option"

text \<open>
  The outcome of \<open>addDocumentToNamespace\<close>: the object it returns, or the reason with which
  its promise is rejected. The \<open>catch\<close> block reads \<open>e.message\<close>, which throws for a \<open>null\<close>
  or \<open>undefined\<close> reason.
\<close>

datatype outcome = Vectorized | NotVectorized "string option" | FromCache | Rejected error

definition caught :: "error \<Rightarrow> outcome" where
  "caught e = (case readMessage e of Inl thrown \<Rightarrow> Rejected thrown | Inr m \<Rightarrow> NotVectorized m)"

text \<open>The loop \<open>for (const [i, vector] of vectorValues.entries())\<close>.\<close>

definition preparePoints :: "(nat \<Rightarrow> string) \<Rightarrow> 'a document_scheme \<Rightarrow> string list \<Rightarrow> vector list \<Rightarrow> 'a point list" where
  "preparePoints uuid meta textChunks vectorValues =
     map (\<lambda>(i, v). \<lparr>pointId = uuid i, vector = v,
                      payload = meta\<lparr>text' := at_index (map Some textChunks) i\<rparr>\<rparr>)
       (enumerate 0 vectorValues)"

text \<open>
  \<open>addDocumentToNamespace(namespace, documentData, fullFilePath, skipCache)\<close> with a new
  embedder on the shared rotator. It returns the outcome, the points that the vector
  store has received, and the state of the embedder (the state before the embedding
  when the embedding threw). With cached vectors the work is
  done by \<open>processCachedVectors\<close>, which is not part of the model. After the embedding,
  \<open>embedder.printStats()\<close> reads the count of available keys. Every exception of the
  \<open>try\<close> block is caught.
\<close>

definition addDocumentToNamespace ::
  "'a qdrant_env \<Rightarrow> provider \<Rightarrow> 'a document_scheme \<Rightarrow> bool \<Rightarrow> rotator \<Rightarrow> int \<Rightarrow>
     (outcome \<times> 'a point list \<times> embedder) option" where
  "addDocumentToNamespace env prov documentData skipCache rot now =
     (let e = ParallelGeminiEmbedder rot now;
          meta = documentData\<lparr>pageContent := None, docId := None\<rparr>
      in if \<not> truthy (pageContent documentData) then Some (NotVectorized (Some ''No content''), [], e)
         else if \<not> skipCache \<and> cacheExists env then Some (FromCache, [], e)
         else
           let textChunks = splitText env (or_empty (pageContent documentData)) in
           case embedChunks prov textChunks e of
             None \<Rightarrow> None
           | Some (Inl err) \<Rightarrow> Some (caught err, [], e)
           | Some (Inr (vectorValues, e')) \<Rightarrow>
               Some (case getAvailableKeyCount (clock e') (keyRotator e') of
                       Inl err \<Rightarrow> (caught err, [], e')
                     | Inr available \<Rightarrow>
                     if vectorValues = []
                     then (NotVectorized (Some ''Could not embed document chunks!''), [], e')
                     else
                       let points = preparePoints (pointUuid env) meta textChunks vectorValues in
                       case connect env of
                         Some err \<Rightarrow> (caught err, [], e')
                       | None \<Rightarrow>
                           if \<not> collectionFound env
                           then (NotVectorized (Some ''Failed to create Qdrant collection!''), [], e')
                           else
                             (case upsert env points of
                                Inl err \<Rightarrow> (caught err, [], e')
                              | Inr (status, json) \<Rightarrow>
                                  if status \<noteq> Some ''completed''
                                  then (NotVectorized (Some (''Error embedding into Qdrant: '' @
                                          (case json of None \<Rightarrow> ''undefined'' | Some t \<Rightarrow> t))), [], e')
                                  else
                                    (case storeAndLink env of
                                       Some err \<Rightarrow> (caught err, points, e')
                                     | None \<Rightarrow> (Vectorized, points, e')))))"

text \<open>
  Concrete inputs: a service that rejects every batch request and the single request for
  the text \<open>a\<close> and answers after 30 milliseconds; eleven batches of one text; two
  chunks; a vector store that accepts every write; a document whose content is split
  into the two chunks.
\<close>

definition prov2 :: provider where
  "prov2 = \<lparr>embedding = (\<lambda>t. if t = ''a'' then [1] else [2]),
     batchEmbedContents = (\<lambda>n k now texts. Some (Thrown (Some ''400 Bad Request''))),
     embedContent = (\<lambda>n k now t. if t = ''a'' then Some (Thrown (Some ''400 Bad Request'')) else None),
     responseTime = (\<lambda>n. 30)\<rparr>"

definition batches11 :: "string list list" where
  "batches11 = [[''0''], [''1''], [''2''], [''3''], [''4''], [''5''], [''6''], [''7''], [''8''], [''9''], [''10'']]"

definition chunks2 :: "string list" where
  "chunks2 = [''a'', ''b'']"

definition completed_json :: string where
  "completed_json =
     ''{'' @ [CHR 0x22] @ ''status'' @ [CHR 0x22] @ '':'' @ [CHR 0x22] @ ''completed'' @ [CHR 0x22] @ ''}''"

definition env2 :: "unit qdrant_env" where
  "env2 = \<lparr>cacheExists = False, splitText = splitWhiteSpace, pointUuid = (\<lambda>i. ''point''),
     connect = None, collectionFound = True, upsert = (\<lambda>points. Inr (Some ''completed'', Some completed_json)),
     storeAndLink = None\<rparr>"

definition doc2 :: document where
  "doc2 = \<lparr>docId = Some (IdStr ''d1''), id' = None, text' = None, pageContent = Some ''a b'',
     content = None, title = Some ''T''\<rparr>"

section \<open>Properties of the rotator\<close>

lemma advance_simps [simp]:
  "apiKeys (advance r) = apiKeys r"
  "keyStats (advance r) = keyStats r"
  "failedKeys (advance r) = failedKeys r"
  "currentIndex (advance r) = (currentIndex r + 1) mod length (apiKeys r)"
  by (simp_all add: advance_def)

lemma usable_advance [simp]: "usable (advance r) now i = usable r now i"
  by (simp add: usable_def)

lemma getNextKey_loop_finds:
  assumes "\<exists>d < m. usable r now ((currentIndex r + d) mod length (apiKeys r))"
    and "currentIndex r < length (apiKeys r)"
    and "\<forall>i < length (apiKeys r). keyStats r i \<noteq> None"
  shows "\<exists>k r'. getNextKey_loop m now r = Inr (Some k, r') \<and> usable r now k \<and>
           apiKeys r' = apiKeys r"
  using assms
proof (induction m arbitrary: r)
  case 0
  then show ?case by simp
next
  case (Suc m)
  let ?c = "currentIndex r" and ?n = "length (apiKeys r)"
  from Suc.prems(2,3) obtain stats where st: "keyStats r ?c = Some stats" by auto
  show ?case
  proof (cases "usable r now ?c")
    case True
    with st have "\<not> isRateLimited stats now" "?c \<notin> failedKeys r"
      by (auto simp: usable_def)
    with st True show ?thesis by (simp add: Let_def)
  next
    case False
    from Suc.prems(1) obtain d where d: "d < Suc m" "usable r now ((?c + d) mod ?n)" by blast
    with False Suc.prems(2) have "d \<noteq> 0" by (cases d) auto
    then obtain d' where d': "d = Suc d'" by (cases d) auto
    have "(currentIndex (advance r) + d') mod length (apiKeys (advance r)) = (?c + d) mod ?n"
      by (simp add: d' mod_simps)
    with d d' have ex: "\<exists>e < m. usable (advance r) now
        ((currentIndex (advance r) + e) mod length (apiKeys (advance r)))"
      by (metis Suc_less_eq usable_advance)
    have c: "currentIndex (advance r) < length (apiKeys (advance r))"
      using Suc.prems(2) by (cases "apiKeys r") auto
    have k: "\<forall>i < length (apiKeys (advance r)). keyStats (advance r) i \<noteq> None"
      using Suc.prems(3) by simp
    from Suc.IH [OF ex c k] obtain k r' where
      "getNextKey_loop m now (advance r) = Inr (Some k, r')" "usable r now k" "apiKeys r' = apiKeys r"
      by auto
    moreover from False st Suc.prems(2) have "isRateLimited stats now \<or> ?c \<in> failedKeys r"
      by (auto simp: usable_def)
    ultimately show ?thesis using st by (auto simp: Let_def)
  qed
qed

lemma getNextKey_usable:
  assumes "wf_rotator r" and "usable r now j" and "length (apiKeys r) \<noteq> 1"
  shows "\<exists>k r'. getNextKey_loop (length (apiKeys r)) now r = Inr (Some k, r') \<and>
           getNextKey now r = Inr (apiKeys r ! k, r') \<and> usable r now k"
proof -
  let ?c = "currentIndex r" and ?n = "length (apiKeys r)"
  from assms(1) have c: "?c < ?n" and ks: "\<forall>i < ?n. keyStats r i \<noteq> None"
    by (auto simp: wf_rotator_def list_all_iff)
  from assms(2) have j: "j < ?n" by (simp add: usable_def)
  let ?d = "(j + ?n - ?c) mod ?n"
  have "?d < ?n" using c by (cases "apiKeys r") auto
  moreover have "(?c + ?d) mod ?n = j"
  proof -
    have "(?c + ?d) mod ?n = (?c + (j + ?n - ?c)) mod ?n" by (simp add: mod_simps)
    also have "\<dots> = (j + ?n) mod ?n" using c by simp
    also have "\<dots> = j" using j by simp
    finally show ?thesis .
  qed
  ultimately have "\<exists>d < ?n. usable r now ((?c + d) mod ?n)" using assms(2) by auto
  from getNextKey_loop_finds [OF this c ks] obtain k r' where
    k: "getNextKey_loop ?n now r = Inr (Some k, r')" "usable r now k" "apiKeys r' = apiKeys r"
    by blast
  then have "k < ?n" by (simp add: usable_def)
  with k assms(3) show ?thesis by (auto simp: getNextKey_def at_index_def)
qed


lemma wf_rotator_iff:
  "wf_rotator r \<longleftrightarrow> currentIndex r < length (apiKeys r) \<and> (\<forall>i < length (apiKeys r). keyStats r i \<noteq> None)"
  by (auto simp: wf_rotator_def list_all_iff)

lemma getNextKey_loop_keeps:
  "getNextKey_loop m now r = Inr (res, r') \<Longrightarrow>
     apiKeys r' = apiKeys r \<and> (wf_rotator r \<longrightarrow> wf_rotator r') \<and>
     (coolingUntil r i dl \<longrightarrow> coolingUntil r' i dl)"
proof (induction m arbitrary: r)
  case 0
  then show ?case by simp
next
  case (Suc m)
  have adv: "wf_rotator r \<Longrightarrow> wf_rotator (advance r)"
    by (cases "apiKeys r") (auto simp: wf_rotator_iff)
  have cadv: "coolingUntil (advance r) i dl = coolingUntil r i dl"
    by (simp add: coolingUntil_def)
  from Suc.prems obtain stats where st: "keyStats r (currentIndex r) = Some stats"
    by (auto simp: Let_def split: option.splits)
  show ?case
  proof (cases "isRateLimited stats now \<or> currentIndex r \<in> failedKeys r")
    case True
    with Suc.prems st have "getNextKey_loop m now (advance r) = Inr (res, r')"
      by (auto simp: Let_def split: if_splits)
    from Suc.IH [OF this] adv cadv show ?thesis by simp
  next
    case False
    with Suc.prems st have r': "r' = advance (r\<lparr>keyStats := (keyStats r)(currentIndex r \<mapsto>
                   stats\<lparr>requests := requests stats + 1, lastUsed := Some now\<rparr>)\<rparr>)"
      by (auto simp: Let_def)
    have "wf_rotator r \<Longrightarrow> wf_rotator r'"
      unfolding r' by (cases "apiKeys r") (auto simp: wf_rotator_iff)
    moreover have "coolingUntil r i dl \<Longrightarrow> coolingUntil r' i dl"
      unfolding r' using st by (auto simp: coolingUntil_def split: option.splits)
    ultimately show ?thesis by (simp add: r')
  qed
qed

lemma getNextKey_keeps:
  "getNextKey now r = Inr (k, r') \<Longrightarrow>
     apiKeys r' = apiKeys r \<and> (wf_rotator r \<longrightarrow> wf_rotator r') \<and>
     (coolingUntil r i dl \<longrightarrow> coolingUntil r' i dl)"
  using getNextKey_loop_keeps [of "length (apiKeys r)" now r _ r' i dl]
  by (auto simp: getNextKey_def Let_def split: if_splits sum.splits option.splits prod.splits)

lemma markFailed_keeps:
  "markFailed k r = Inr r' \<Longrightarrow>
     apiKeys r' = apiKeys r \<and> (wf_rotator r \<longrightarrow> wf_rotator r') \<and>
     (coolingUntil r i dl \<longrightarrow> coolingUntil r' i dl)"
  by (auto simp: markFailed_def wf_rotator_iff coolingUntil_def split: option.splits if_splits)

lemma markSuccess_keeps:
  "markSuccess k r = Inr r' \<Longrightarrow>
     apiKeys r' = apiKeys r \<and> (wf_rotator r \<longrightarrow> wf_rotator r') \<and>
     (coolingUntil r i dl \<longrightarrow> coolingUntil r' i dl)"
  by (auto simp: markSuccess_def wf_rotator_iff coolingUntil_def split: option.splits if_splits)

lemma markRateLimited_keeps:
  "markRateLimited k d t r = Inr r' \<Longrightarrow> indexOf (apiKeys r) k = Some i \<longrightarrow> dl \<le> t + d \<Longrightarrow>
     apiKeys r' = apiKeys r \<and> (wf_rotator r \<longrightarrow> wf_rotator r') \<and>
     (coolingUntil r i dl \<longrightarrow> coolingUntil r' i dl)"
  by (auto simp: markRateLimited_def wf_rotator_iff coolingUntil_def split: option.splits if_splits)

lemma exec_keeps:
  "exec tc r = Inr r' \<Longrightarrow> keepsCooldown (apiKeys r) i dl tc \<Longrightarrow>
     apiKeys r' = apiKeys r \<and> (wf_rotator r \<longrightarrow> wf_rotator r') \<and>
     (coolingUntil r i dl \<longrightarrow> coolingUntil r' i dl)"
proof (cases tc)
  case (Pair t c)
  assume e: "exec tc r = Inr r'" and k: "keepsCooldown (apiKeys r) i dl tc"
  show ?thesis
  proof (cases c)
    case GetNextKey
    with e Pair obtain key where "getNextKey t r = Inr (key, r')"
      by (cases "getNextKey t r") auto
    from getNextKey_keeps [OF this] show ?thesis .
  next
    case (MarkRateLimited k' d)
    with e k Pair show ?thesis
      using markRateLimited_keeps [of k' d t r r' i dl] by (simp add: keepsCooldown_def)
  next
    case (MarkFailed k')
    with e Pair show ?thesis using markFailed_keeps [of k' r r' i dl] by simp
  next
    case (MarkSuccess k')
    with e Pair show ?thesis using markSuccess_keeps [of k' r r' i dl] by simp
  next
    case ResetRateLimits
    with k Pair show ?thesis by (simp add: keepsCooldown_def)
  qed
qed

lemma run_keeps:
  "run cs r = Inr r' \<Longrightarrow> list_all (keepsCooldown (apiKeys r) i dl) cs \<Longrightarrow>
     apiKeys r' = apiKeys r \<and> (wf_rotator r \<longrightarrow> wf_rotator r') \<and>
     (coolingUntil r i dl \<longrightarrow> coolingUntil r' i dl)"
proof (induction cs arbitrary: r)
  case Nil
  then show ?case by simp
next
  case (Cons c cs)
  from Cons.prems(1) obtain r1 where r1: "exec c r = Inr r1" "run cs r1 = Inr r'"
    by (auto split: sum.splits)
  from Cons.prems(2) have kc: "keepsCooldown (apiKeys r) i dl c"
    and rest: "list_all (keepsCooldown (apiKeys r) i dl) cs" by simp_all
  from exec_keeps [OF r1(1) kc] have s1: "apiKeys r1 = apiKeys r"
    "wf_rotator r \<longrightarrow> wf_rotator r1" "coolingUntil r i dl \<longrightarrow> coolingUntil r1 i dl" by simp_all
  from Cons.IH [OF r1(2)] rest s1 show ?case by simp
qed

lemma markRateLimited_cools:
  "markRateLimited k d t r = Inr r' \<Longrightarrow> indexOf (apiKeys r) k = Some i \<Longrightarrow>
     apiKeys r' = apiKeys r \<and> (wf_rotator r \<longrightarrow> wf_rotator r') \<and> coolingUntil r' i (t + d)"
  by (auto simp: markRateLimited_def wf_rotator_iff coolingUntil_def split: option.splits if_splits)

lemmas rotator_eval = getNextKey_def advance_def isRateLimited_def initialStats_def Let_def
  markFailed_def markRateLimited_def markSuccess_def ApiKeyRotator_def validKey_def trim_def
  isWhiteSpace_def at_index_def

text \<open>
  C10. When the pool holds exactly one credential, \<open>getNextKey\<close> returns it at once,
  whatever its cooldown and disabled flag are, and leaves the whole state as it was: no
  request is counted and the last-used timestamp is not written.
\<close>

theorem getNextKey_single:
  "length (apiKeys r) = 1 \<Longrightarrow> getNextKey now r = Inr (apiKeys r ! 0, r)"
  by (simp add: getNextKey_def at_index_def)

theorem getNextKey_single_witness:
  "length (apiKeys single1) = 1 \<and> \<not> usable single1 50 0 \<and> 0 \<in> failedKeys single1 \<and>
   getNextKey 50 single1 = Inr (Some ''k'', single1)"
  using getNextKey_single [of single1 50] by (simp add: single1_def usable_def isRateLimited_def)

text \<open>The constructor produces a well-formed state whenever a valid key is configured.\<close>

lemma ApiKeyRotator_wf:
  "filter validKey keys \<noteq> [] \<Longrightarrow> wf_rotator (ApiKeyRotator keys envKey)"
  by (auto simp: wf_rotator_iff ApiKeyRotator_def Let_def)

lemma ApiKeyRotator_distinct:
  "filter validKey keys \<noteq> [] \<Longrightarrow> distinct keys \<Longrightarrow> distinct (apiKeys (ApiKeyRotator keys envKey))"
  by (auto simp: ApiKeyRotator_def Let_def)

lemma indexOf_nth: "indexOf xs x = Some n \<Longrightarrow> n < length xs \<and> xs ! n = x"
  by (induction xs arbitrary: n) (auto split: if_splits option.splits)

text \<open>
  C5, as stated, fails in three ways. \<open>markRateLimited\<close> takes a key and finds its
  position with \<open>indexOf\<close>, which is the first one: in the pool \<open>a, a, b\<close> the cooldown of
  \<open>a\<close>, set at time 10 for 100 milliseconds, is kept on position 0 only, and
  \<open>getNextKey\<close> at time 20 returns the key \<open>a\<close> from position 1 although \<open>b\<close> is usable.
  A second marking overwrites the deadline: after \<open>a\<close> is marked at time 1000 for 60000
  milliseconds and again at time 2000 for 10 milliseconds, \<open>getNextKey\<close> at time 3000
  returns \<open>a\<close> although \<open>b\<close> is usable. And \<open>resetRateLimits\<close> clears every deadline, with
  the same result.
\<close>

theorem cooldown_not_respected:
  "\<not> isl (markRateLimited (Some ''a'') 100 10 dup3) \<and>
   map_sum id fst (getNextKey 20 marked_dup3) = Inr (Some ''a'') \<and>
   (20::int) < 10 + 100 \<and> usable marked_dup3 20 2 \<and> apiKeys marked_dup3 ! 2 = Some ''b'' \<and>
   \<not> isl (run [(1000, MarkRateLimited (Some ''a'') 60000),
               (2000, MarkRateLimited (Some ''a'') 10)] pool3) \<and>
   map_sum id fst (getNextKey 3000 remarked3) = Inr (Some ''a'') \<and>
   (3000::int) < 1000 + 60000 \<and> usable remarked3 3000 1 \<and> apiKeys remarked3 ! 1 = Some ''b'' \<and>
   \<not> isl (run [(1000, MarkRateLimited (Some ''a'') 60000), (2000, ResetRateLimits)] pool3) \<and>
   map_sum id fst (getNextKey 3000 reset3) = Inr (Some ''a'') \<and>
   usable reset3 3000 1 \<and> apiKeys reset3 ! 1 = Some ''b''"
  by (simp add: marked_dup3_def dup3_def remarked3_def reset3_def pool3_def rotator_eval usable_def resetRateLimits_def)

text \<open>
  C5, amended. In a pool of pairwise distinct keys, the key \<open>key\<close> is marked rate-limited
  at time \<open>T\<close> for \<open>D\<close> milliseconds. After any further calls of the rotator that neither
  reset the rate limits nor mark \<open>key\<close> again with a cooldown ending before \<open>T + D\<close>, a
  selection at a time before \<open>T + D\<close> at which some credential is usable returns a usable
  credential whose key is not \<open>key\<close>.
\<close>

theorem cooldown_respected:
  assumes "wf_rotator r" and "distinct (apiKeys r)"
    and "indexOf (apiKeys r) key = Some i"
    and "markRateLimited key D T r = Inr r1"
    and "run cs r1 = Inr r2"
    and "list_all (keepsCooldown (apiKeys r) i (T + D)) cs"
    and "0 \<le> now" and "now < T + D"
    and "usable r2 now j"
  shows "\<exists>k r3. getNextKey_loop (length (apiKeys r2)) now r2 = Inr (Some k, r3) \<and>
           getNextKey now r2 = Inr (apiKeys r2 ! k, r3) \<and> apiKeys r2 ! k \<noteq> key \<and>
           k \<noteq> i \<and> usable r2 now k"
proof -
  from markRateLimited_cools [OF assms(4,3)] assms(1)
  have r1: "apiKeys r1 = apiKeys r" "wf_rotator r1" "coolingUntil r1 i (T + D)" by simp_all
  from run_keeps [OF assms(5), of i "T + D"] assms(6) r1
  have r2: "apiKeys r2 = apiKeys r" "wf_rotator r2" "coolingUntil r2 i (T + D)" by simp_all
  from r2(3) assms(7,8) have ni: "\<not> usable r2 now i"
    by (auto simp: coolingUntil_def usable_def isRateLimited_def split: option.splits)
  with assms(9) have "j \<noteq> i" by auto
  from indexOf_nth [OF assms(3)] r2(1)
  have i: "i < length (apiKeys r2)" "apiKeys r2 ! i = key" by simp_all
  moreover from assms(9) have "j < length (apiKeys r2)" by (simp add: usable_def)
  ultimately have "length (apiKeys r2) \<noteq> 1" using \<open>j \<noteq> i\<close> by auto
  from getNextKey_usable [OF r2(2) assms(9) this] obtain k r3 where
    k: "getNextKey_loop (length (apiKeys r2)) now r2 = Inr (Some k, r3)"
       "getNextKey now r2 = Inr (apiKeys r2 ! k, r3)" "usable r2 now k" by blast
  with ni have "k \<noteq> i" by auto
  moreover from k(3) have "k < length (apiKeys r2)" by (simp add: usable_def)
  ultimately have "apiKeys r2 ! k \<noteq> key"
    using i assms(2) r2(1) by (auto simp: nth_eq_iff_index_eq)
  with k \<open>k \<noteq> i\<close> show ?thesis by blast
qed

theorem cooldown_respected_witness:
  "wf_rotator pool3 \<and> distinct (apiKeys pool3) \<and> usable later3 30000 1 \<and>
   (\<exists>k r3. getNextKey_loop (length (apiKeys later3)) 30000 later3 = Inr (Some k, r3) \<and>
      getNextKey 30000 later3 = Inr (apiKeys later3 ! k, r3) \<and>
      apiKeys later3 ! k \<noteq> Some ''a'' \<and> k \<noteq> 0 \<and> usable later3 30000 k)"
proof -
  have h1: "wf_rotator pool3"
    by (simp add: wf_rotator_def pool3_def rotator_eval upt_rec)
  have h0: "distinct (apiKeys pool3)"
    by (simp add: pool3_def rotator_eval)
  have h2: "indexOf (apiKeys pool3) (Some ''a'') = Some 0"
    by (simp add: pool3_def rotator_eval)
  have h3: "markRateLimited (Some ''a'') 60000 1000 pool3 = Inr cooled3"
    by (simp add: cooled3_def pool3_def rotator_eval)
  have "\<not> isl (run calls3 cooled3)"
    by (simp add: calls3_def cooled3_def pool3_def rotator_eval)
  then have h4: "run calls3 cooled3 = Inr later3"
    by (simp add: later3_def)
  have h5: "list_all (keepsCooldown (apiKeys pool3) 0 (1000 + 60000)) calls3"
    by (simp add: calls3_def keepsCooldown_def pool3_def rotator_eval)
  have h6: "(0::int) \<le> 30000" and h7: "(30000::int) < 1000 + 60000" by simp_all
  have h8: "usable later3 30000 1"
    by (simp add: later3_def calls3_def cooled3_def pool3_def rotator_eval usable_def)
  from cooldown_respected [OF h1 h0 h2 h3 h4 h5 h6 h7 h8] h1 h0 h8 show ?thesis by simp
qed

text \<open>
  C6. In the pool \<open>exhausted3\<close>, reached from the constructor by the calls \<open>calls6\<close>, every
  credential is cooling down at time 8. Credential 0 was last used at time 1, credential
  2 at time 3 and credential 1 at time 5, so the least recently used one is credential 0
  with key \<open>a\<close>; \<open>getNextKey\<close> returns the key \<open>c\<close> of credential 2, on which the
  round-robin cursor stands.
\<close>

theorem degraded_mode_returns_cursor_key:
  "\<not> isl (run calls6 pool3) \<and>
   \<not> usable exhausted3 8 0 \<and> \<not> usable exhausted3 8 1 \<and> \<not> usable exhausted3 8 2 \<and>
   map_option lastUsed (keyStats exhausted3 0) = Some (Some 1) \<and>
   map_option lastUsed (keyStats exhausted3 1) = Some (Some 5) \<and>
   map_option lastUsed (keyStats exhausted3 2) = Some (Some 3) \<and>
   currentIndex exhausted3 = 2 \<and>
   map_sum id fst (getNextKey 8 exhausted3) = Inr (Some ''c'')"
  by (simp add: exhausted3_def calls6_def pool3_def rotator_eval usable_def)

section \<open>Properties of deduplication\<close>

lemma deduplicate_loop_keys:
  "distinct (map dedupKey (deduplicate_loop seen rs)) \<and>
   set (map dedupKey (deduplicate_loop seen rs)) \<inter> seen = {}"
proof (induction rs arbitrary: seen)
  case Nil
  then show ?case by simp
next
  case (Cons r rs)
  from Cons.IH [of seen] Cons.IH [of "insert (dedupKey r) seen"]
  show ?case by (auto simp: Let_def)
qed

lemma deduplicate_loop_fixed:
  "distinct (map dedupKey rs) \<Longrightarrow> set (map dedupKey rs) \<inter> seen = {} \<Longrightarrow>
   deduplicate_loop seen rs = rs"
  by (induction rs arbitrary: seen) (auto simp: Let_def)

lemmas hash_eval = hashText_def toLowerCase_def toLowerCase_char_def trim_def isWhiteSpace_def
  hashStep_def toString36_def digit36_def char_of_eq_iff

lemma deduplicateResults_results3:
  "deduplicateResults results3 =
     [(textDoc ''Hello'')\<lparr>docId := Some (IdStr ''d1'')\<rparr>,
      (textDoc ''Hello'')\<lparr>docId := Some (IdStr ''d2'')\<rparr>]"
proof -
  have h: "hashText ''Hello'' = ''1n1e4y''" "hashText '' HELLO '' = ''1n1e4y''"
    by (simp_all add: hash_eval)
  show ?thesis
    by (simp add: results3_def deduplicateResults_def dedupKey_def textDoc_def template_id_def
        or_id_def truthy_id_def or_empty_def h)
qed

text \<open>
  C9. Deduplicating a deduplicated list changes nothing. The key of a result is the
  text \<open>docId_hash\<close>, made of \<open>docId || id\<close> and the hash of the first 200 characters of
  the text, lower-cased and trimmed.
\<close>

theorem deduplicateResults_idempotent:
  "deduplicateResults (deduplicateResults X) = deduplicateResults X"
  unfolding deduplicateResults_def
  using deduplicate_loop_keys [of "{}" X]
  by (intro deduplicate_loop_fixed) simp_all

theorem deduplicateResults_idempotent_witness:
  "deduplicateResults (deduplicateResults results3) =
     [(textDoc ''Hello'')\<lparr>docId := Some (IdStr ''d1'')\<rparr>,
      (textDoc ''Hello'')\<lparr>docId := Some (IdStr ''d2'')\<rparr>]"
  using deduplicateResults_idempotent [of results3] by (simp only: deduplicateResults_results3)

section \<open>Properties of the tokenizer\<close>

lemmas char_classes = isDigit_def isUpper_def isLower_def isWordChar_def isWhiteSpace_def letter_i_def

lemma firstSome_None: "(\<And>x. x \<in> set xs \<Longrightarrow> f x = None) \<Longrightarrow> firstSome f xs = None"
  by (induction xs) auto

lemma matchItems_needs_upper:
  "(isUpper, One) \<in> set items \<Longrightarrow> (\<And>c. c \<in> set s \<Longrightarrow> \<not> isUpper c) \<Longrightarrow> matchItems items s = None"
proof (induction items arbitrary: s)
  case Nil
  then show ?case by simp
next
  case (Cons item items)
  obtain cls q where item: "item = (cls, q)" by (cases item)
  show ?case
  proof (cases "item = (isUpper, One)")
    case True
    have "takeWhile isUpper s = []" using Cons.prems(2) by (cases s) auto
    with True show ?thesis by simp
  next
    case False
    with Cons.prems(1) have mem: "(isUpper, One) \<in> set items" by auto
    have "matchItems items (drop n s) = None" for n
      using Cons.prems(2) by (intro Cons.IH [OF mem]) (auto dest: in_set_dropD)
    then show ?thesis by (simp add: item firstSome_None)
  qed
qed

lemma replaceAll_no_match:
  "(\<And>n. matchItems items (drop n s) = None) \<Longrightarrow> replaceAll items f s = s"
proof (induction s)
  case Nil
  from Nil [of 0] show ?case by (simp add: replaceAll.simps)
next
  case (Cons c cs)
  from Cons.prems [of 0] have "matchItems items (c # cs) = None" by simp
  moreover have "replaceAll items f cs = cs"
    using Cons.prems [of "Suc n" for n] by (intro Cons.IH) simp
  ultimately show ?case by (simp add: replaceAll.simps)
qed

lemma toLowerCase_char_not_upper: "\<not> isUpper (toLowerCase_char c)"
  by (auto simp: isUpper_def toLowerCase_char_def Let_def)

lemma citation_never_matches:
  "replaceAll citationPattern citationReplacement (toLowerCase input) = toLowerCase input"
proof (rule replaceAll_no_match)
  fix n
  show "matchItems citationPattern (drop n (toLowerCase input)) = None"
  proof (rule matchItems_needs_upper)
    show "(isUpper, One) \<in> set citationPattern" by (simp add: citationPattern_def)
  next
    fix c assume "c \<in> set (drop n (toLowerCase input))"
    then have "c \<in> set (toLowerCase input)" by (rule in_set_dropD)
    then show "\<not> isUpper c" by (auto simp: toLowerCase_def toLowerCase_char_not_upper)
  qed
qed

lemmas tokenize_eval = tokenize_def toLowerCase_def toLowerCase_char_def char_of_eq_iff
  removeSpecial_def splitWhiteSpace_def keepTerm_def isLegalAbbreviation_def isStopWord_def
  legalAbbreviations_def stopWords_def char_classes

text \<open>
  C4. \<open>tokenize\<close> makes one token \<open>section_42_a\<close> of the query \<open>Section 42(a)\<close>. A
  citation is not kept together: the text is lower-cased before the citation pattern,
  which asks for a capital letter, is applied, so that the pattern never matches, on any
  input; \<open>123 U.S. 456\<close> becomes the two tokens \<open>123\<close> and \<open>456\<close>.
\<close>

theorem tokenize_section_and_citation:
  "tokenize ''Section 42(a)'' = [''section_42_a''] \<and>
   tokenize ''123 U.S. 456'' = [''123'', ''456''] \<and>
   (\<forall>input. replaceAll citationPattern citationReplacement (toLowerCase input) = toLowerCase input)"
proof (intro conjI allI)
  have low: "toLowerCase ''Section 42(a)'' = ''section 42(a)''"
    by (simp add: toLowerCase_def toLowerCase_char_def char_of_eq_iff)
  have cit: "replaceAll citationPattern citationReplacement ''section 42(a)'' = ''section 42(a)''"
    using citation_never_matches [of "''Section 42(a)''"] by (simp only: low)
  have sec: "replaceAll sectionPattern sectionReplacement ''section 42(a)'' = ''section_42_a''"
    by (simp add: replaceAll.simps sectionPattern_def sectionReplacement_def char_classes)
  show "tokenize ''Section 42(a)'' = [''section_42_a'']"
    unfolding tokenize_def low cit sec by (simp add: tokenize_eval)
next
  have low: "toLowerCase ''123 U.S. 456'' = ''123 u.s. 456''"
    by (simp add: toLowerCase_def toLowerCase_char_def char_of_eq_iff)
  have cit: "replaceAll citationPattern citationReplacement ''123 u.s. 456'' = ''123 u.s. 456''"
    using citation_never_matches [of "''123 U.S. 456''"] by (simp only: low)
  have sec: "replaceAll sectionPattern sectionReplacement ''123 u.s. 456'' = ''123 u.s. 456''"
    by (simp add: replaceAll.simps sectionPattern_def sectionReplacement_def char_classes)
  show "tokenize ''123 U.S. 456'' = [''123'', ''456'']"
    unfolding tokenize_def low cit sec by (simp add: tokenize_eval)
next
  fix input
  show "replaceAll citationPattern citationReplacement (toLowerCase input) = toLowerCase input"
    by (rule citation_never_matches)
qed

section \<open>Properties of the index and of scoring\<close>

lemma countTerms_foldl:
  "foldl (\<lambda>termFreq token. termFreq(token \<mapsto> get_or_0 termFreq token + 1)) m tokens t =
     (if t \<in> set tokens then Some (get_or_0 m t + count_list tokens t) else m t)"
  by (induction tokens arbitrary: m) (auto simp: get_or_0_def)

lemma countTerms_eq:
  "countTerms tokens t = (if t \<in> set tokens then Some (count_list tokens t) else None)"
  unfolding countTerms_def countTerms_foldl by (simp add: get_or_0_def)

lemma get_or_0_countTerms: "get_or_0 (countTerms tokens) t = count_list tokens t"
  by (simp add: get_or_0_def countTerms_eq count_list_0_iff)

lemma firstPass_eq:
  "firstPass docs (lens, tfs, tot, tdf) =
     (lens @ map (\<lambda>d. length (docTokens d)) docs,
      tfs @ map (\<lambda>d. countTerms (docTokens d)) docs,
      tot + sum_list (map (\<lambda>d. length (docTokens d)) docs),
      foldl (\<lambda>m d. countDocument (countTerms (docTokens d)) m) tdf docs)"
  by (induction docs arbitrary: lens tfs tot tdf) (simp_all add: Let_def docTokens_def)

lemma countDocument_apply:
  "countDocument (countTerms tokens) tdf t =
     (if t \<in> set tokens then Some (get_or_0 tdf t + 1) else tdf t)"
  by (simp add: countDocument_def countTerms_eq)

lemma docFreq_Cons:
  "docFreq (d # docs) t = (if t \<in> set (docTokens d) then Suc (docFreq docs t) else docFreq docs t)"
  by (simp add: docFreq_def)

lemma docFreq_foldl:
  "foldl (\<lambda>m d. countDocument (countTerms (docTokens d)) m) tdf docs t =
     (if docFreq docs t = 0 then tdf t else Some (get_or_0 tdf t + docFreq docs t))"
proof (induction docs arbitrary: tdf)
  case Nil
  then show ?case by (simp add: docFreq_def)
next
  case (Cons d docs)
  have "foldl (\<lambda>m d. countDocument (countTerms (docTokens d)) m) tdf (d # docs) t =
        foldl (\<lambda>m d. countDocument (countTerms (docTokens d)) m)
          (countDocument (countTerms (docTokens d)) tdf) docs t"
    by (simp only: foldl.simps)
  also have "\<dots> = (if docFreq docs t = 0 then countDocument (countTerms (docTokens d)) tdf t
       else Some (get_or_0 (countDocument (countTerms (docTokens d)) tdf) t + docFreq docs t))"
    by (rule Cons.IH)
  also have "\<dots> = (if docFreq (d # docs) t = 0 then tdf t
       else Some (get_or_0 tdf t + docFreq (d # docs) t))"
    by (simp add: countDocument_apply docFreq_Cons get_or_0_def)
  finally show ?case .
qed

lemma docFreq_le: "docFreq docs t \<le> length docs"
  by (simp add: docFreq_def)


lemma BM25_index:
  assumes "docs \<noteq> []"
  shows "k1 (BM25 docs options) = or_real (opt_k1 options) 1.5"
    and "bParam (BM25 docs options) = or_real (opt_b options) 0.75"
    and "documents (BM25 docs options) = docs"
    and "documentCount (BM25 docs options) = length docs"
    and "documentLengths (BM25 docs options) = map (\<lambda>d. length (docTokens d)) docs"
    and "termFrequencies (BM25 docs options) = map (\<lambda>d. countTerms (docTokens d)) docs"
    and "avgDocLength (BM25 docs options) =
           real (sum_list (map (\<lambda>d. length (docTokens d)) docs)) / real (length docs)"
    and "idf (BM25 docs options) t =
           (if docFreq docs t = 0 then None
            else Some (ln ((real (length docs) - real (docFreq docs t) + 0.5) /
                           (real (docFreq docs t) + 0.5) + 1)))"
  using assms
  by (simp_all add: BM25_def buildIndex_def firstPass_eq docFreq_foldl get_or_0_def Let_def)

lemma idf_nonneg:
  assumes "docs \<noteq> []" and "idf (BM25 docs options) t = Some v"
  shows "0 \<le> v"
proof -
  let ?df = "real (docFreq docs t)" and ?N = "real (length docs)"
  from assms have v: "v = ln ((?N - ?df + 0.5) / (?df + 0.5) + 1)"
    by (simp add: BM25_index(8) split: if_splits)
  have "?df \<le> ?N" using docFreq_le [of docs t] by simp
  then have "0 \<le> (?N - ?df + 0.5) / (?df + 0.5)" by simp
  then have "1 \<le> (?N - ?df + 0.5) / (?df + 0.5) + 1" by simp
  then show ?thesis unfolding v by (rule ln_ge_zero)
qed

lemma docFreq_update:
  assumes "i < length docs"
    and "t \<in> set (docTokens d') \<longleftrightarrow> t \<in> set (docTokens (docs ! i))"
  shows "docFreq (docs[i := d']) t = docFreq docs t"
  using assms
proof (induction docs arbitrary: i)
  case Nil
  then show ?case by simp
next
  case (Cons d docs)
  then show ?case by (cases i) (simp_all add: docFreq_Cons)
qed

lemma lengths_update:
  assumes "i < length docs" and "length (docTokens d') = length (docTokens (docs ! i))"
  shows "map (\<lambda>d. length (docTokens d)) (docs[i := d']) = map (\<lambda>d. length (docTokens d)) docs"
  using assms by (simp add: map_update list_update_same_conv)

lemma scoreTerm_add: "scoreTerm s dl tf a u = a + scoreTerm s dl tf 0 u"
  by (simp add: scoreTerm_def Let_def)

lemma foldl_scoreTerm_mono:
  assumes "\<And>u. u \<in> set q \<Longrightarrow> u \<noteq> t \<Longrightarrow> scoreTerm s' dl' tf' 0 u = scoreTerm s dl tf 0 u"
    and "scoreTerm s' dl' tf' 0 t \<le> scoreTerm s dl tf 0 t"
    and "a' \<le> a"
  shows "foldl (scoreTerm s' dl' tf') a' q \<le> foldl (scoreTerm s dl tf) a q"
  using assms
proof (induction q arbitrary: a a')
  case Nil
  then show ?case by simp
next
  case (Cons u q)
  have step: "scoreTerm s' dl' tf' a' u \<le> scoreTerm s dl tf a u"
  proof (cases "u = t")
    case True
    with Cons.prems(2,3) show ?thesis
      using scoreTerm_add [of s' dl' tf' a' t] scoreTerm_add [of s dl tf a t] by simp
  next
    case False
    with Cons.prems(1) [of u] Cons.prems(3) show ?thesis
      using scoreTerm_add [of s' dl' tf' a' u] scoreTerm_add [of s dl tf a u] by simp
  qed
  have "foldl (scoreTerm s' dl' tf') (scoreTerm s' dl' tf' a' u) q
      \<le> foldl (scoreTerm s dl tf) (scoreTerm s dl tf a u) q"
    using Cons.prems(1,2) step by (intro Cons.IH) auto
  then show ?case by simp
qed


lemma scoreTerm_nonneg:
  assumes "docs \<noteq> []" and "s = BM25 docs options"
    and "0 \<le> k1 s" and "0 \<le> bParam s" and "bParam s \<le> 1" and "0 \<le> dl"
  shows "0 \<le> scoreTerm s dl tf 0 t"
proof (cases "get_or_0 tf t = 0")
  case True
  then show ?thesis by (simp add: scoreTerm_def)
next
  case False
  let ?tf = "real (get_or_0 tf t)"
  have idf: "0 \<le> (case idf s t of None \<Rightarrow> 0 | Some v \<Rightarrow> v)"
    using idf_nonneg [OF assms(1), of options t] assms(2) by (cases "idf s t") auto
  have avg: "0 \<le> avgDocLength s"
    using assms(1,2) by (simp add: BM25_index(7))
  have num: "0 \<le> ?tf * (k1 s + 1)" using assms(3) by simp
  have "0 \<le> bParam s * (dl / avgDocLength s)" using assms(4,6) avg by simp
  moreover have "0 \<le> 1 - bParam s" using assms(5) by simp
  ultimately have "0 \<le> k1 s * (1 - bParam s + bParam s * (dl / avgDocLength s))"
    using assms(3) by simp
  then have den: "0 \<le> ?tf + k1 s * (1 - bParam s + bParam s * (dl / avgDocLength s))" by simp
  from num den have "0 \<le> ?tf * (k1 s + 1) / (?tf + k1 s * (1 - bParam s + bParam s * (dl / avgDocLength s)))"
    by (rule divide_nonneg_nonneg)
  with idf have "0 \<le> (case idf s t of None \<Rightarrow> 0 | Some v \<Rightarrow> v) *
      (?tf * (k1 s + 1) / (?tf + k1 s * (1 - bParam s + bParam s * (dl / avgDocLength s))))"
    by (rule mult_nonneg_nonneg)
  with False show ?thesis by (simp add: scoreTerm_def Let_def)
qed

text \<open>
  Where a document contains a term, the two divisors in the score of the term, the
  average document length and the denominator, are positive: the real quotients of the
  model are the quotients that the code computes, up to rounding.
\<close>

lemma scoring_divisors_positive:
  fixes docs :: "'a document_scheme list"
  assumes "i < length docs" and "u \<in> set (docTokens (docs ! i))"
    and "0 \<le> k1 (BM25 docs options)"
    and "0 \<le> bParam (BM25 docs options)" and "bParam (BM25 docs options) \<le> 1"
  shows "0 < avgDocLength (BM25 docs options)"
    and "0 < real (get_or_0 (countTerms (docTokens (docs ! i))) u) +
           k1 (BM25 docs options) * (1 - bParam (BM25 docs options) + bParam (BM25 docs options) *
             (real (length (docTokens (docs ! i))) / avgDocLength (BM25 docs options)))"
proof -
  let ?s = "BM25 docs options" and ?T = "docTokens (docs ! i)"
  from assms(1) have ne: "docs \<noteq> []" by auto
  from assms(2) have "0 < length ?T" by (cases ?T) auto
  moreover have "length ?T \<le> sum_list (map (\<lambda>d. length (docTokens d)) docs)"
  proof (rule member_le_sum_list)
    have "docs ! i \<in> set docs" using assms(1) by simp
    then show "length ?T \<in> set (map (\<lambda>d. length (docTokens d)) docs)" by auto
  qed simp
  ultimately have "0 < sum_list (map (\<lambda>d. length (docTokens d)) docs)" by (rule less_le_trans)
  then show avg: "0 < avgDocLength ?s" using ne by (simp add: BM25_index(7))
  from assms(2) have tf: "0 < real (get_or_0 (countTerms ?T) u)"
    using count_list_0_iff [of ?T u] by (simp add: get_or_0_countTerms)
  have "0 \<le> bParam ?s * (real (length ?T) / avgDocLength ?s)" using assms(4) avg by simp
  moreover have "0 \<le> 1 - bParam ?s" using assms(5) by simp
  ultimately have "0 \<le> k1 ?s * (1 - bParam ?s + bParam ?s * (real (length ?T) / avgDocLength ?s))"
    using assms(3) by simp
  with tf show "0 < real (get_or_0 (countTerms ?T) u) +
           k1 ?s * (1 - bParam ?s + bParam ?s * (real (length ?T) / avgDocLength ?s))"
    by simp
qed

text \<open>
  C8. Two indexes are built with the same options from two lists of documents that differ
  in document \<open>i\<close> only. The two versions of document \<open>i\<close> have the same number of
  tokens and contain every query term other than \<open>t\<close> equally often, and the second
  version does not contain \<open>t\<close>. Then the score of the second version for the query is at
  most the score of the first. The parameters are in the range of BM25: \<open>k1\<close> is not
  negative and \<open>b\<close> lies between 0 and 1, as the defaults 1.5 and 0.75 do.
\<close>

theorem bm25_score_monotone:
  fixes docs :: "'a document_scheme list" and d' :: "'a document_scheme"
  assumes "i < length docs"
    and "0 \<le> k1 (BM25 docs options)"
    and "0 \<le> bParam (BM25 docs options)" and "bParam (BM25 docs options) \<le> 1"
    and "length (docTokens d') = length (docTokens (docs ! i))"
    and "\<forall>u \<in> set q. u \<noteq> t \<longrightarrow> count_list (docTokens d') u = count_list (docTokens (docs ! i)) u"
    and "count_list (docTokens d') t = 0"
  shows "\<exists>sc sc'. scoreDocument (BM25 docs options) i q = Inr sc \<and>
           scoreDocument (BM25 (docs[i := d']) options) i q = Inr sc' \<and> sc' \<le> sc"
proof (cases "q = []")
  case True
  then show ?thesis by (simp add: scoreDocument_def)
next
  case False
  let ?docs' = "docs[i := d']"
  let ?s = "BM25 docs options" and ?s' = "BM25 ?docs' options"
  let ?T = "docTokens (docs ! i)" and ?T' = "docTokens d'"
  from assms(1) have ne: "docs \<noteq> []" and ne': "?docs' \<noteq> []" by auto
  have lens: "map (\<lambda>d. length (docTokens d)) ?docs' = map (\<lambda>d. length (docTokens d)) docs"
    using assms(1,5) by (rule lengths_update)
  have sc: "scoreDocument ?s i q = Inr (foldl (scoreTerm ?s (real (length ?T)) (countTerms ?T)) 0 q)"
    using False assms(1) by (simp add: scoreDocument_def BM25_index(5,6) [OF ne])
  have sc': "scoreDocument ?s' i q = Inr (foldl (scoreTerm ?s' (real (length ?T)) (countTerms ?T')) 0 q)"
    using False assms(1,5) by (simp add: scoreDocument_def BM25_index(5,6) [OF ne'])
  have par: "k1 ?s' = k1 ?s" "bParam ?s' = bParam ?s" "avgDocLength ?s' = avgDocLength ?s"
    by (simp_all add: BM25_index(1,2,7) [OF ne] BM25_index(1,2,7) [OF ne'] lens)
  have same: "scoreTerm ?s' (real (length ?T)) (countTerms ?T') 0 u =
              scoreTerm ?s (real (length ?T)) (countTerms ?T) 0 u" if "u \<in> set q" "u \<noteq> t" for u
  proof -
    from that assms(6) have c: "count_list ?T' u = count_list ?T u" by blast
    then have "u \<in> set ?T' \<longleftrightarrow> u \<in> set ?T" by (metis count_list_0_iff)
    with assms(1) have "docFreq ?docs' u = docFreq docs u" by (rule docFreq_update)
    then have e: "idf ?s' u = idf ?s u" by (simp add: BM25_index(8) [OF ne] BM25_index(8) [OF ne'])
    show ?thesis by (simp only: scoreTerm_def get_or_0_countTerms c par e)
  qed
  have zero: "scoreTerm ?s' (real (length ?T)) (countTerms ?T') 0 t = 0"
    using assms(7) by (simp add: scoreTerm_def get_or_0_countTerms)
  have "0 \<le> scoreTerm ?s (real (length ?T)) (countTerms ?T) 0 t"
    using ne refl assms(2,3,4) by (rule scoreTerm_nonneg) simp
  with zero have le: "scoreTerm ?s' (real (length ?T)) (countTerms ?T') 0 t
       \<le> scoreTerm ?s (real (length ?T)) (countTerms ?T) 0 t" by simp
  have z: "(0::real) \<le> 0" by simp
  have "foldl (scoreTerm ?s' (real (length ?T)) (countTerms ?T')) 0 q
      \<le> foldl (scoreTerm ?s (real (length ?T)) (countTerms ?T)) 0 q"
    using same le z by (rule foldl_scoreTerm_mono)
  with sc sc' show ?thesis by simp
qed

theorem bm25_score_monotone_witness:
  "count_list (docTokens (docs2 ! 0)) ''contract'' = 1 \<and>
   count_list (docTokens (textDoc ''property breach'')) ''contract'' = 0 \<and>
   (\<exists>sc sc'. scoreDocument (BM25 docs2 searchOptions) 0 [''contract'', ''breach''] = Inr sc \<and>
      scoreDocument (BM25 (docs2[0 := textDoc ''property breach'']) searchOptions) 0
        [''contract'', ''breach''] = Inr sc' \<and> sc' \<le> sc)"
proof -
  have t1: "tokenize ''contract breach'' = [''contract'', ''breach'']"
    by (simp add: tokenize_eval replaceAll.simps citationPattern_def sectionPattern_def)
  have t2: "tokenize ''property breach'' = [''property'', ''breach'']"
    by (simp add: tokenize_eval replaceAll.simps citationPattern_def sectionPattern_def)
  have d1: "docTokens (docs2 ! 0) = [''contract'', ''breach'']"
    by (simp add: docs2_def docTokens_def getDocumentText_def textDoc_def truthy_def or_empty_def t1)
  have d2: "docTokens (textDoc ''property breach'') = [''property'', ''breach'']"
    by (simp add: docTokens_def getDocumentText_def textDoc_def truthy_def or_empty_def t2)
  have ne: "docs2 \<noteq> []" by (simp add: docs2_def)
  have h1: "0 < length docs2" by (simp add: docs2_def)
  have h2: "0 \<le> k1 (BM25 docs2 searchOptions)"
    by (simp add: BM25_index(1) [OF ne] searchOptions_def or_real_def)
  have h3: "0 \<le> bParam (BM25 docs2 searchOptions)" and h4: "bParam (BM25 docs2 searchOptions) \<le> 1"
    by (simp_all add: BM25_index(2) [OF ne] searchOptions_def or_real_def)
  have h5: "length (docTokens (textDoc ''property breach'')) = length (docTokens (docs2 ! 0))"
    by (simp add: d1 d2)
  have h6: "\<forall>u \<in> set [''contract'', ''breach'']. u \<noteq> ''contract'' \<longrightarrow>
      count_list (docTokens (textDoc ''property breach'')) u = count_list (docTokens (docs2 ! 0)) u"
    by (simp add: d1 d2)
  have h7: "count_list (docTokens (textDoc ''property breach'')) ''contract'' = 0"
    by (simp add: d2)
  have c: "count_list (docTokens (docs2 ! 0)) ''contract'' = 1" by (simp add: d1)
  from bm25_score_monotone [OF h1 h2 h3 h4 h5 h6 h7] c h7 show ?thesis by simp
qed


section \<open>Properties of the keyword search\<close>

lemma normalizeScores_without_bm25Score:
  assumes "\<forall>r \<in> set results. bm25Score r = None"
  shows "normalizeScores results = results"
proof (cases results)
  case Nil
  then show ?thesis by (simp add: normalizeScores_def)
next
  case (Cons r rs)
  have "fold max (map (\<lambda>r. score_or_0 (bm25Score r)) xs) 0 = (0::real)"
    if "\<forall>r \<in> set xs. bm25Score r = None" for xs :: "'a hit list"
    using that by (induction xs) (simp_all add: score_or_0_def)
  with assms Cons show ?thesis by (simp add: normalizeScores_def score_or_0_def)
qed

lemma search_loop_bm25Score:
  "search_loop s q is = Inr hits \<Longrightarrow> \<forall>r \<in> set hits. bm25Score r = None"
  by (induction "is" arbitrary: hits) (auto split: sum.splits)

lemma search_bm25Score:
  assumes "search s query topK = Inr hits"
  shows "\<forall>r \<in> set hits. bm25Score r = None"
proof -
  from assms obtain scores where sc: "search_loop s (tokenize query) [0..<documentCount s] = Inr scores"
    and hits: "hits = take topK (sort_key (\<lambda>h. - score h) scores)"
    by (auto simp: search_def split: sum.splits)
  from search_loop_bm25Score [OF sc] have "\<forall>r \<in> set (sort_key (\<lambda>h. - score h) scores). bm25Score r = None"
    by simp
  then show ?thesis unfolding hits by (auto dest: in_set_takeD)
qed

lemma performBM25Search_raw:
  "performBM25Search allDocs query topN =
     (if allDocs = [] then []
      else case search (BM25 allDocs searchOptions) query topN of
             Inl e \<Rightarrow> []
           | Inr results \<Rightarrow> map (\<lambda>r. (document r, score r)) results)"
  by (auto simp: performBM25Search_def Let_def normalizeScores_without_bm25Score search_bm25Score
      split: sum.splits)

lemma tokenize_words:
  "tokenize ''alpha'' = [''alpha'']"
  "tokenize ''beta'' = [''beta'']"
  "tokenize ''gamma'' = [''gamma'']"
  "tokenize ''delta'' = [''delta'']"
  by (simp_all add: tokenize_eval replaceAll.simps citationPattern_def sectionPattern_def)

lemma docTokens_docs4:
  "map docTokens docs4 = [[''alpha''], [''beta''], [''gamma''], [''delta'']]"
  by (simp add: docs4_def docTokens_def getDocumentText_def textDoc_def truthy_def or_empty_def
      tokenize_words)

lemma ln_10_3: "1 < ln (10 / 3 :: real)"
proof -
  have "exp 1 < (10 / 3 :: real)" using exp_le by simp
  then have "ln (exp 1) < ln (10 / 3 :: real)" by (subst ln_less_cancel_iff) simp_all
  then show ?thesis by simp
qed


lemma docFreq_map: "docFreq docs t = length (filter (\<lambda>T. t \<in> set T) (map docTokens docs))"
  by (simp add: docFreq_def length_filter_map comp_def)

lemma docs4_ne: "docs4 \<noteq> []" by (simp add: docs4_def)

lemma index4:
  "k1 (BM25 docs4 searchOptions) = 1.5"
  "bParam (BM25 docs4 searchOptions) = 0.75"
  "documentCount (BM25 docs4 searchOptions) = 4"
  "documentLengths (BM25 docs4 searchOptions) = [1, 1, 1, 1]"
  "termFrequencies (BM25 docs4 searchOptions) =
     [countTerms [''alpha''], countTerms [''beta''], countTerms [''gamma''], countTerms [''delta'']]"
  "avgDocLength (BM25 docs4 searchOptions) = 1"
  "idf (BM25 docs4 searchOptions) ''alpha'' = Some (ln (10 / 3))"
proof -
  have len: "length docs4 = 4" by (simp add: docs4_def)
  have m1: "map (\<lambda>d. length (docTokens d)) docs4 = map length (map docTokens docs4)" by simp
  have m2: "map (\<lambda>d. countTerms (docTokens d)) docs4 = map countTerms (map docTokens docs4)" by simp
  show "k1 (BM25 docs4 searchOptions) = 1.5" "bParam (BM25 docs4 searchOptions) = 0.75"
    by (simp_all add: BM25_index(1,2) [OF docs4_ne] searchOptions_def or_real_def)
  show "documentCount (BM25 docs4 searchOptions) = 4"
    by (simp add: BM25_index(4) [OF docs4_ne] len)
  show "documentLengths (BM25 docs4 searchOptions) = [1, 1, 1, 1]"
    unfolding BM25_index(5) [OF docs4_ne] m1 docTokens_docs4 by simp
  show "termFrequencies (BM25 docs4 searchOptions) =
     [countTerms [''alpha''], countTerms [''beta''], countTerms [''gamma''], countTerms [''delta'']]"
    unfolding BM25_index(6) [OF docs4_ne] m2 docTokens_docs4 by simp
  show "avgDocLength (BM25 docs4 searchOptions) = 1"
    unfolding BM25_index(7) [OF docs4_ne] m1 docTokens_docs4 len by simp
  have "docFreq docs4 ''alpha'' = 1" unfolding docFreq_map docTokens_docs4 by simp
  then show "idf (BM25 docs4 searchOptions) ''alpha'' = Some (ln (10 / 3))"
    by (simp add: BM25_index(8) [OF docs4_ne] len)
qed

lemma scores4:
  "scoreDocument (BM25 docs4 searchOptions) 0 [''alpha''] = Inr (ln (10 / 3))"
  "scoreDocument (BM25 docs4 searchOptions) (Suc 0) [''alpha''] = Inr 0"
  "scoreDocument (BM25 docs4 searchOptions) 2 [''alpha''] = Inr 0"
  "scoreDocument (BM25 docs4 searchOptions) 3 [''alpha''] = Inr 0"
  by (simp_all add: scoreDocument_def index4 scoreTerm_def get_or_0_countTerms)

lemma documents4: "documents (BM25 docs4 searchOptions) = docs4"
  by (rule BM25_index(3) [OF docs4_ne])

lemma search4:
  "search (BM25 docs4 searchOptions) ''alpha'' 20 =
     Inr [\<lparr>index = 0, score = ln (10 / 3), document = textDoc ''alpha'', bm25Score = None\<rparr>,
          \<lparr>index = 1, score = 0, document = textDoc ''beta'', bm25Score = None\<rparr>,
          \<lparr>index = 2, score = 0, document = textDoc ''gamma'', bm25Score = None\<rparr>,
          \<lparr>index = 3, score = 0, document = textDoc ''delta'', bm25Score = None\<rparr>]"
proof -
  have upt: "[0..<4] = [0, 1, 2, 3::nat]" by (simp add: upt_rec)
  have nth4: "docs4 ! 0 = textDoc ''alpha''" "docs4 ! Suc 0 = textDoc ''beta''"
    "docs4 ! 2 = textDoc ''gamma''" "docs4 ! 3 = textDoc ''delta''"
    by (simp_all add: docs4_def)
  have pos: "0 < ln (10 / 3 :: real)" using ln_10_3 by simp
  show ?thesis
    unfolding search_def index4 tokenize_words upt
    using pos by (simp add: scores4 documents4 nth4)
qed

text \<open>
  C3. \<open>performBM25Search\<close> on four documents with the texts \<open>alpha\<close>, \<open>beta\<close>,
  \<open>gamma\<close>, \<open>delta\<close> and the query \<open>alpha\<close>: the score handed on for the first
  document is the raw score \<open>ln (10 / 3)\<close>, which is greater than 1. \<open>normalizeScores\<close>
  reads the property \<open>bm25Score\<close>, which the results of \<open>search\<close> do not have, and so
  returns them as they are; the mapping that follows copies \<open>r.score\<close>.
\<close>

theorem performBM25Search_scores_raw:
  "map snd (performBM25Search docs4 ''alpha'' 20) = [ln (10 / 3), 0, 0, 0] \<and> 1 < ln (10 / 3 :: real)"
  using ln_10_3
  by (simp add: performBM25Search_raw docs4_ne search4)


section \<open>Properties of the document processor\<close>







lemma readMessage_of_TypeError: "readMessage (TypeError m) = Inr (Some m)"
  by (simp add: readMessage_def)








lemma accounted_Nil_iff:
  "accounted w p [] acc acc' \<longleftrightarrow>
     embedded (fst acc') = embedded (fst acc) \<and> length (failedToEmbed (fst acc')) = length (failedToEmbed (fst acc)) \<and>
     processed (snd acc') = processed (snd acc) \<and> failed (snd acc') = failed (snd acc) \<and>
     total (snd acc') = total (snd acc)"
  by (simp add: accounted_def)












section \<open>Properties of the embedder\<close>

lemma chunk2: "chunkArray [''a'', ''b''] maxBatchSize = Some [[''a'', ''b'']]"
  by (simp add: chunkArray_def chunkArray_loop.simps maxBatchSize_def)

lemmas embed_eval = eventLoop.simps startBatches_def start_def finish_def limiter_run_def
  limiter_finally_def handle_def embedBatch_def afterBatchEmbedContents_def catchBatch_def
  markKeyAfterError_def afterEmbedContent_def catchSingle_def answer_def setTimeout_def settle_def
  isRateLimitMessage_def readMessage_def concurrentRequests_def
  maxRetries_def embedRetryDelay_def ParallelGeminiEmbedder_def pool3_def rotator_eval prov2_def

text \<open>
  The batches are started side by side. Of three batches, each draws its key and sends
  its request at time 0, before any answer is handled: the keys are \<open>a\<close>, \<open>b\<close> and \<open>c\<close>, and
  the three answers are due at time 30. Of eleven batches, ten are started and the
  eleventh waits in the queue of the limiter.
\<close>

lemma startBatches_side_by_side:
  "timers (startBatches prov2 [[''x''], [''y''], [''z'']] (start (ParallelGeminiEmbedder pool3 0))) =
     [(30, BatchAnswer 0 [''x''] 1 (Some ''a'') (Some (Thrown (Some ''400 Bad Request'')))),
      (30, BatchAnswer 1 [''y''] 1 (Some ''b'') (Some (Thrown (Some ''400 Bad Request'')))),
      (30, BatchAnswer 2 [''z''] 1 (Some ''c'') (Some (Thrown (Some ''400 Bad Request''))))]"
  by (simp add: embed_eval)

lemma startBatches_eleven:
  "running (startBatches prov2 batches11 (start (ParallelGeminiEmbedder pool3 0))) = 10 \<and>
   sent (startBatches prov2 batches11 (start (ParallelGeminiEmbedder pool3 0))) = 10 \<and>
   queue (startBatches prov2 batches11 (start (ParallelGeminiEmbedder pool3 0))) = [(10, [''10''])]"
  by (simp add: embed_eval batches11_def)

text \<open>
  The run of \<open>embedChunks\<close> on the chunks \<open>a\<close> and \<open>b\<close>, for which the service rejects
  every batch request and the single request for \<open>a\<close>: three batch requests and two
  single requests are sent, the call returns at time 3250, the result is the one
  vector of \<open>b\<close>, and the three keys are available afterwards.
\<close>

lemma embedChunks_chunks2_run:
  "map_option (map_sum id (\<lambda>(vectors, e). (vectors, clock e, totalRequests (embedStats e),
       failedChunks (embedStats e), getAvailableKeyCount (clock e) (keyRotator e))))
     (embedChunks prov2 chunks2 (ParallelGeminiEmbedder pool3 0)) =
     Some (Inr ([[2]], 3250, 3, 1, Inr 3))"
proof -
  have e: "(ParallelGeminiEmbedder pool3 0)\<lparr>embedStats := (embedStats (ParallelGeminiEmbedder pool3 0))
      \<lparr>totalChunks := totalChunks (embedStats (ParallelGeminiEmbedder pool3 0)) + length [''a'', ''b'']\<rparr>\<rparr>
     = (ParallelGeminiEmbedder pool3 0)\<lparr>embedStats := \<lparr>totalChunks = 2, successfulChunks = 0,
          failedChunks = 0, totalRequests = 0, rateLimitHits = 0\<rparr>\<rparr>"
    by (simp add: ParallelGeminiEmbedder_def)
  show ?thesis
    unfolding chunks2_def embedChunks_def Let_def chunk2 e
    by (simp add: embed_eval getAvailableKeyCount_def usable_def upt_rec)
qed

lemma embedChunks_chunks2:
  "\<exists>e'. embedChunks prov2 chunks2 (ParallelGeminiEmbedder pool3 0) = Some (Inr ([[2]], e')) \<and>
        getAvailableKeyCount (clock e') (keyRotator e') = Inr 3"
proof -
  from embedChunks_chunks2_run obtain r where
    r: "embedChunks prov2 chunks2 (ParallelGeminiEmbedder pool3 0) = Some r"
       "map_sum id (\<lambda>(vectors, e). (vectors, clock e, totalRequests (embedStats e),
          failedChunks (embedStats e), getAvailableKeyCount (clock e) (keyRotator e))) r =
          Inr ([[2]], 3250, 3, 1, Inr 3)"
    by auto
  from r(2) obtain e' where "r = Inr ([[2]], e')" "getAvailableKeyCount (clock e') (keyRotator e') = Inr 3"
    by (cases r) auto
  with r(1) show ?thesis by simp
qed

text \<open>
  C2. The claim fails on the code. The chunks are \<open>a\<close> and \<open>b\<close>; the service rejects
  every batch request and the single request for \<open>a\<close>, so \<open>a\<close> fails for good, and the
  embedding of \<open>b\<close> is \<open>[2]\<close>. \<open>embedChunks\<close> returns the list that holds the vector of \<open>b\<close>
  alone: it has one entry for two chunks, and at position 0, the position of the failed
  chunk \<open>a\<close>, it holds the vector of \<open>b\<close>. \<open>embedIndividually\<close> pushes \<open>null\<close> for \<open>a\<close> and
  then filters the \<open>null\<close> entries out.
\<close>

theorem embedChunks_drops_failed_chunk:
  "chunks2 = [''a'', ''b''] \<and> embedding prov2 ''b'' = [2] \<and>
   map_option (map_sum id fst) (embedChunks prov2 chunks2 (ParallelGeminiEmbedder pool3 0)) =
     Some (Inr [[2]]) \<and>
   length [[2::real]] \<noteq> length chunks2"
  using embedChunks_chunks2 by (auto simp: chunks2_def prov2_def)

section \<open>Properties of the vector persistence\<close>

text \<open>
  C1. The document is split into the chunks \<open>a\<close> and \<open>b\<close>; the embedding of \<open>a\<close>
  is \<open>[1]\<close> and fails for good, the embedding of \<open>b\<close> is \<open>[2]\<close>. The one point that
  \<open>addDocumentToNamespace\<close> writes to the vector store has the vector \<open>[2]\<close> of chunk
  \<open>b\<close> and the payload text \<open>a\<close>: the vectors, without the failed one, are paired
  with the chunks by position.
\<close>

theorem payload_text_of_other_chunk:
  "splitText env2 (or_empty (pageContent doc2)) = chunks2 \<and>
   embedding prov2 ''a'' = [1] \<and> embedding prov2 ''b'' = [2] \<and>
   map_option (\<lambda>(out, points, e). (out, map (\<lambda>p. (vector p, text' (payload p))) points))
     (addDocumentToNamespace env2 prov2 doc2 True pool3 0) =
     Some (Vectorized, [([2], Some ''a'')])"
proof -
  have s: "splitText env2 (or_empty (pageContent doc2)) = chunks2"
    by (simp add: env2_def doc2_def or_empty_def splitWhiteSpace_def isWhiteSpace_def chunks2_def)
  from embedChunks_chunks2 obtain e' where
    r: "embedChunks prov2 chunks2 (ParallelGeminiEmbedder pool3 0) = Some (Inr ([[2]], e'))" and
    k: "getAvailableKeyCount (clock e') (keyRotator e') = Inr 3"
    by blast
  have "map_option (\<lambda>(out, points, e). (out, map (\<lambda>p. (vector p, text' (payload p))) points))
     (addDocumentToNamespace env2 prov2 doc2 True pool3 0) =
     Some (Vectorized, [([2], Some ''a'')])"
    unfolding addDocumentToNamespace_def Let_def s r
    by (simp add: k env2_def doc2_def truthy_def preparePoints_def at_index_def chunks2_def caught_def)
  with s show ?thesis by (simp add: prov2_def)
qed

end
